theory Spec2Isabelle
  imports Main
begin

section \<open>Schema path matching\<close>

text \<open>
  The matching tests of the engine (\<^verbatim>\<open>describe("matchPath")\<close>) build a schema module with
  \<^verbatim>\<open>SchemaUtilsV2.createModuleProps({ fname })\<close>, flag its root schema with
  \<^verbatim>\<open>schema.schemas[schema.root.id].data.namespace = true\<close>, store it with
  \<^verbatim>\<open>engine.updateSchema(schema)\<close> and read \<^verbatim>\<open>resp?.schema.id\<close> from the result of
  \<^verbatim>\<open>SchemaUtilsV2.matchPath({ notePath, schemaModDict: engine.schemas })\<close>.
  A schema carries its id and the namespace flag of its data; a module carries its root
  schema; the dictionary maps a module id to the module.
\<close>

record SchemaProps =
  schema_id :: string
  namespace :: bool

record SchemaModuleProps =
  root :: SchemaProps

type_synonym SchemaModuleDict = "string \<rightharpoonup> SchemaModuleProps"

record SchemaMatchResult =
  schema :: SchemaProps

text \<open>
  Modelled from the spec: \<^verbatim>\<open>SchemaUtilsV2.createModuleProps\<close> is not among the sources; the
  spec gives \<^verbatim>\<open>createModuleProps({fname}) -> schema module with root id\<close>. The root is
  named after \<^verbatim>\<open>fname\<close> and is not a namespace until the caller flags it.
\<close>

definition createModuleProps :: "string \<Rightarrow> SchemaModuleProps" where
  "createModuleProps fname = \<lparr>root = \<lparr>schema_id = fname, namespace = False\<rparr>\<rparr>"

text \<open>
  Modelled from the spec: \<^verbatim>\<open>engine.updateSchema\<close> is not among the sources; the spec lists
  \<^verbatim>\<open>schemas\<close> as a mapping from module id to schema module and \<^verbatim>\<open>updateSchema(schema)\<close>
  as the operation that stores a module, so the module is stored under the id of its root.
\<close>

definition updateSchema :: "SchemaModuleProps \<Rightarrow> SchemaModuleDict \<Rightarrow> SchemaModuleDict" where
  "updateSchema m schemaModDict = schemaModDict(schema_id (root m) \<mapsto> m)"

text \<open>
  The domain of a dotted note path is its first component: the tests speak of matching
  "on domain", with \<^verbatim>\<open>bond\<close> the domain of \<^verbatim>\<open>bond.foo\<close>.
\<close>

definition domainName :: "string \<Rightarrow> string" where
  "domainName notePath = takeWhile (\<lambda>c. c \<noteq> CHR ''.'') notePath"

text \<open>
  Modelled from the spec: \<^verbatim>\<open>SchemaUtilsV2.matchPath\<close> is not among the sources. The spec
  gives its contract, \<^verbatim>\<open>matchPath(notePath, schemaModDict) -> {schema:{id}} | undefined\<close>:
  it resolves a dotted note path against a dictionary of schema modules; a module flagged
  "namespace" matches its own path and all descendants, any other module matches its own
  path only. The module is looked up by the domain of the path.
\<close>

definition matchPath :: "string \<Rightarrow> SchemaModuleDict \<Rightarrow> SchemaMatchResult option" where
  "matchPath notePath schemaModDict =
     (case schemaModDict (domainName notePath) of
        None \<Rightarrow> None
      | Some m \<Rightarrow>
          if notePath = domainName notePath then Some \<lparr>schema = root m\<rparr>
          else if namespace (root m) then Some \<lparr>schema = root m\<rparr>
          else None)"

text \<open>A dictionary is keyed by module id when every module sits under the id of its root.\<close>

definition keyedByRootId :: "SchemaModuleDict \<Rightarrow> bool" where
  "keyedByRootId schemaModDict =
     (\<forall>k m. schemaModDict k = Some m \<longrightarrow> schema_id (root m) = k)"

section \<open>The editor host shared by the commands\<close>

text \<open>
  Both commands raise \<^verbatim>\<open>DendronError\<close> objects: \<^verbatim>\<open>new DendronError({ message })\<close> and
  \<^verbatim>\<open>DendronError.createFromStatus({ status, message })\<close>. Of the status codes only
  \<^verbatim>\<open>ERROR_STATUS.INVALID_STATE\<close> occurs in the commands.
\<close>

datatype ERROR_STATUS = INVALID_STATE

record DendronError =
  message :: string
  status :: "ERROR_STATUS option"

text \<open>
  An asynchronous call settles with a value, rejects with an error, or never settles
  (a promise whose \<^verbatim>\<open>resolve\<close> is never called).
\<close>

datatype 'a outcome = Returned 'a | Threw DendronError | Pending

subsection \<open>Vaults, workspaces and the workspace file\<close>

datatype VaultRemoteSource = Local | Remote

datatype WorkspaceType = NATIVE | CODE

record DVault =
  fsPath :: string
  vault_name :: "string option"
  selfContained :: "bool option"

record DWorkspace =
  ws_name :: string
  ws_vaults :: "DVault list"

record WorkspaceFolderRaw =
  folder_path :: string
  folder_name :: "string option"

record WorkspaceSettings =
  folders :: "WorkspaceFolderRaw list"
  settings :: string

record VaultAddCommandOpts =
  opts_type :: VaultRemoteSource
  opts_path :: string
  opts_pathRemote :: "string option"
  opts_name :: "string option"
  opts_isSelfContained :: "bool option"

record CommandOutput =
  out_vaults :: "DVault list"

record SourceQuickPickEntry =
  label :: string
  description :: string
  alwaysShow :: bool
  src :: string

subsection \<open>Headers, notes and the open document\<close>

record Position =
  line :: nat
  character :: nat

record Range =
  range_start :: Position
  range_end :: Position

record OldHeader =
  header_text :: string
  header_range :: Range

record Heading =
  depth :: nat
  raw :: string
  position :: Range

record SchemaAssoc =
  moduleId :: string
  schemaId :: string

record NoteProps =
  fname :: string
  vault :: DVault
  note_schema :: "SchemaAssoc option"

record RenameHeaderOpts =
  oldHeader :: "OldHeader option"
  newHeader :: "string option"
  opt_source :: "string option"
  opt_note :: "NoteProps option"

record RequiredRenameHeaderOpts =
  req_oldHeader :: OldHeader
  req_newHeader :: string
  req_source :: string
  req_note :: NoteProps

record DNoteLoc =
  loc_fname :: string
  loc_vaultName :: string
  anchorHeader :: string
  loc_alias :: string

type_synonym RenameNoteResp = "(string \<times> nat) list"

record TextDocument =
  doc_lines :: "string list"

record TextEditor =
  document :: TextDocument
  selection :: "Position option"

subsection \<open>Calls to the host and to the collaborators\<close>

text \<open>
  Every call that leaves the command (a prompt, a message, git, the workspace service,
  the file system, the parser, the engine) is recorded, in the order the command makes it.
\<close>

datatype event =
    ShowQuickPick "string list"
  | CreateQuickPick "SourceQuickPickEntry list"
  | QuickPickHide
  | ShowInputBox string "string option"
  | ShowInformationMessage string
  | LoggerInfo string
  | ProgressReport string
  | GitClone "string option" string
  | GetVaultsFromRepo string string "string option"
  | AddWorkspace DWorkspace
  | CreateVault DVault
  | CreateSelfContainedVault DVault bool bool
  | WriteCodeWorkspaceSettings WorkspaceSettings
  | AddToGitignore string string bool
  | EnsureDir string
  | ExecuteCommand string
  | Parse string
  | EditReplace Range string
  | DocumentSave
  | DelayedUpdateDecorations
  | RenameNote DNoteLoc DNoteLoc

text \<open>
  The state of the host: the answers the user will give (\<open>inputBox\<close>: one entry per input
  box, \<open>None\<close> when the user dismisses it; \<open>quickPick\<close>: the source type picked, if any;
  \<open>accepts\<close>: the value typed and the item selected each time the user accepts the
  quick pick of remote presets), the \<^verbatim>\<open>dendron.code-workspace\<close> file (\<open>None\<close> when reading
  it gives an error), the active text editor, the saved copy of its document, and the
  calls made so far.
\<close>

record host =
  inputBox :: "string option list"
  quickPick :: "VaultRemoteSource option"
  accepts :: "(string \<times> SourceQuickPickEntry) list"
  codeWorkspace :: "WorkspaceSettings option"
  activeTextEditor :: "TextEditor option"
  disk :: "string list"
  trace :: "event list"

definition emit :: "event \<Rightarrow> host \<Rightarrow> host" where
  "emit e h = h\<lparr>trace := trace h @ [e]\<rparr>"

text \<open>\<^verbatim>\<open>await p\<close> followed by the rest of the function: an error or a pending promise ends it.\<close>

definition await :: "'a outcome \<times> host \<Rightarrow> ('a \<Rightarrow> host \<Rightarrow> 'b outcome \<times> host) \<Rightarrow> 'b outcome \<times> host" where
  "await p k =
     (case p of
        (Returned a, h) \<Rightarrow> k a h
      | (Threw e, h) \<Rightarrow> (Threw e, h)
      | (Pending, h) \<Rightarrow> (Pending, h))"

text \<open>
  \<^verbatim>\<open>VSCodeUtils.showInputBox\<close> and \<^verbatim>\<open>window.showInputBox\<close>: the prompt and the initial value are
  shown, the next scripted answer is returned; with no answer left the box is dismissed.
\<close>

definition showInputBox :: "string \<Rightarrow> string option \<Rightarrow> host \<Rightarrow> string option \<times> host" where
  "showInputBox prompt initial h =
     (case inputBox h of
        [] \<Rightarrow> (None, emit (ShowInputBox prompt initial) h)
      | r # rs \<Rightarrow> (r, emit (ShowInputBox prompt initial) (h\<lparr>inputBox := rs\<rparr>)))"

definition nextInput :: "host \<Rightarrow> string option" where
  "nextInput h = (case inputBox h of [] \<Rightarrow> None | r # rs \<Rightarrow> r)"

text \<open>
  Modelled from the spec: \<^verbatim>\<open>PickerUtilsV2.isInputEmpty\<close> is not among the sources; the spec
  calls the input "an empty/cancelled prompt": the box was dismissed or left empty.
\<close>

definition isInputEmpty :: "string option \<Rightarrow> bool" where
  "isInputEmpty v = (case v of None \<Rightarrow> True | Some s \<Rightarrow> s = [])"

text \<open>JavaScript truthiness of an optional string: \<^verbatim>\<open>undefined\<close> and \<^verbatim>\<open>""\<close> are falsy.\<close>

definition truthy :: "string option \<Rightarrow> bool" where
  "truthy v = (case v of None \<Rightarrow> False | Some s \<Rightarrow> s \<noteq> [])"

section \<open>The vault-add command\<close>

text \<open>
  What the command reads from the extension (\<^verbatim>\<open>ExtensionProvider.getDWorkspace()\<close>: the
  workspace root and its config; \<^verbatim>\<open>ExtensionProvider.getExtension().type\<close>) and the helpers it
  imports (\<^verbatim>\<open>VaultUtils\<close>, \<^verbatim>\<open>GitUtils\<close>, \<^verbatim>\<open>path.join\<close>, \<^verbatim>\<open>FOLDERS\<close>, \<^verbatim>\<open>DENDRON_REMOTE_VAULTS\<close>),
  whose code is not part of the command: they are parameters of the model.
\<close>

record vault_env =
  wsRoot :: string
  wsType :: WorkspaceType
  config_vaults :: "DVault list option"
  enableSelfContainedVaults :: bool
  getName :: "DVault \<Rightarrow> string"
  getRelPath :: "DVault \<Rightarrow> string"
  toWorkspaceFolder :: "DVault \<Rightarrow> WorkspaceFolderRaw"
  normVaultPath :: "string \<Rightarrow> string \<Rightarrow> string"
  isSelfContained :: "DVault \<Rightarrow> bool"
  getRepoNameFromURL :: "string \<Rightarrow> string"
  remoteUrlToDependencyPath :: "string \<Rightarrow> string \<Rightarrow> string"
  getVaultsFromRepo :: "string \<Rightarrow> string \<Rightarrow> string option \<Rightarrow> DVault list \<times> DWorkspace option"
  pathJoin :: "string list \<Rightarrow> string"
  FOLDERS_DEPENDENCIES :: string
  FOLDERS_LOCAL_DEPENDENCY :: string
  DENDRON_REMOTE_VAULTS :: "(string \<times> string \<times> string) list"

definition generateRemoteEntries :: "vault_env \<Rightarrow> SourceQuickPickEntry list" where
  "generateRemoteEntries E =
     map (\<lambda>(name, descr, data). \<lparr>label = name, description = descr, alwaysShow = False, src = data\<rparr>)
       (DENDRON_REMOTE_VAULTS E)
     @ [\<lparr>label = ''custom'', description = ''custom endpoint'', alwaysShow = True, src = []\<rparr>]"

definition vaultNameTakenError :: "string \<Rightarrow> DendronError" where
  "vaultNameTakenError vaultName =
     \<lparr>message = ''There is already a vault with the name '' @ vaultName
                  @ '', please pick a different name.'', status = None\<rparr>"

definition noCodeWorkspaceError :: DendronError where
  "noCodeWorkspaceError =
     \<lparr>message = ''no dendron.code-workspace found'', status = Some INVALID_STATE\<rparr>"

definition pathPrompt :: string where
  "pathPrompt = ''Path to your new vault (relative to your workspace root)''"

definition namePrompt :: string where
  "namePrompt = ''Name of new vault (optional, press enter to skip)''"

text \<open>
  The handler of \<^verbatim>\<open>qp.onDidAccept\<close> in \<^verbatim>\<open>gatherVaultStandard\<close>, run once for each time the
  user accepts the quick pick. An empty custom endpoint shows a message and leaves the
  promise unsettled, so the next accept runs the handler again; when the user never
  accepts with an endpoint, nothing calls \<^verbatim>\<open>resolve\<close>. After an empty path,
  \<^verbatim>\<open>resolve(undefined)\<close> settles the promise and the handler still goes on to ask for the
  name and to hide the quick pick; its second \<^verbatim>\<open>resolve\<close> has no effect.
\<close>

fun onDidAccept ::
  "vault_env \<Rightarrow> VaultRemoteSource \<Rightarrow> (string \<times> SourceQuickPickEntry) list \<Rightarrow> host
    \<Rightarrow> VaultAddCommandOpts option outcome \<times> host" where
  "onDidAccept E sourceType [] h = (Pending, h\<lparr>accepts := []\<rparr>)"
| "onDidAccept E sourceType ((val, selected) # rest) h =
     (if label selected = ''custom'' \<and> isInputEmpty (Some val)
      then onDidAccept E sourceType rest (emit (ShowInformationMessage ''please enter an endpoint'') h)
      else
        let sourceRemotePath = (if label selected = ''custom'' then val else src selected);
            path2Vault = (if label selected = ''custom''
                          then getRepoNameFromURL E sourceRemotePath else label selected);
            placeHolder = path2Vault;
            (out, h1) = showInputBox pathPrompt (Some path2Vault) (h\<lparr>accepts := rest\<rparr>);
            (sourceName, h2) = showInputBox namePrompt (Some placeHolder) h1;
            h3 = emit QuickPickHide h2
        in (case out of
              None \<Rightarrow> (Returned None, h3)
            | Some sourcePath \<Rightarrow>
                if isInputEmpty out then (Returned None, h3)
                else (Returned (Some \<lparr>opts_type = sourceType, opts_path = sourcePath,
                        opts_pathRemote = Some sourceRemotePath, opts_name = sourceName,
                        opts_isSelfContained = None\<rparr>), h3)))"

definition gatherVaultStandard ::
  "vault_env \<Rightarrow> VaultRemoteSource \<Rightarrow> host \<Rightarrow> VaultAddCommandOpts option outcome \<times> host" where
  "gatherVaultStandard E sourceType h =
     (if sourceType = Remote
      then onDidAccept E sourceType (accepts h) (emit (CreateQuickPick (generateRemoteEntries E)) h)
      else
        let (out, h1) = showInputBox pathPrompt None h
        in (case out of
              None \<Rightarrow> (Returned None, h1)
            | Some sourcePath \<Rightarrow>
                if isInputEmpty out then (Returned None, h1)
                else
                  let (sourceName, h2) = showInputBox namePrompt None h1
                  in (Returned (Some \<lparr>opts_type = sourceType, opts_path = sourcePath,
                        opts_pathRemote = None, opts_name = sourceName,
                        opts_isSelfContained = None\<rparr>), h2)))"

definition vaultNameTaken :: "vault_env \<Rightarrow> string \<Rightarrow> bool" where
  "vaultNameTaken E vaultName =
     (case config_vaults E of
        None \<Rightarrow> False
      | Some vaults \<Rightarrow> vaultName \<in> set (map (getName E) vaults))"

definition gatherVaultSelfContained ::
  "vault_env \<Rightarrow> VaultRemoteSource \<Rightarrow> host \<Rightarrow> VaultAddCommandOpts option outcome \<times> host" where
  "gatherVaultSelfContained E sourceType h =
     (let (vaultNameInput, h1) = showInputBox ''Name for the new vault'' None h
      in (case vaultNameInput of
            None \<Rightarrow> (Returned None, h1)
          | Some vaultName \<Rightarrow>
              if isInputEmpty vaultNameInput then (Returned None, h1)
              else if vaultNameTaken E vaultName
              then (Threw (vaultNameTakenError vaultName), h1)
              else if sourceType = Local
              then (Returned (Some \<lparr>opts_type = sourceType,
                      opts_path = pathJoin E [FOLDERS_DEPENDENCIES E, FOLDERS_LOCAL_DEPENDENCY E, vaultName],
                      opts_pathRemote = None, opts_name = Some vaultName,
                      opts_isSelfContained = Some True\<rparr>), h1)
              else
                let (remoteInput, h2) = showInputBox ''Enter the URL for the git remote'' None h1
                in (case remoteInput of
                      None \<Rightarrow> (Returned None, h2)
                    | Some remote \<Rightarrow>
                        if isInputEmpty remoteInput then (Returned None, h2)
                        else (Returned (Some \<lparr>opts_type = sourceType,
                                opts_path = pathJoin E [FOLDERS_DEPENDENCIES E,
                                  remoteUrlToDependencyPath E vaultName remote],
                                opts_pathRemote = None, opts_name = Some vaultName,
                                opts_isSelfContained = Some True\<rparr>), h2))))"

definition VaultAdd_gatherInputs ::
  "vault_env \<Rightarrow> host \<Rightarrow> VaultAddCommandOpts option outcome \<times> host" where
  "VaultAdd_gatherInputs E h =
     (let h1 = emit (ShowQuickPick [''local'', ''remote'']) h
      in (case quickPick h of
            None \<Rightarrow> (Returned None, h1)
          | Some sourceType \<Rightarrow>
              if enableSelfContainedVaults E then gatherVaultSelfContained E sourceType h1
              else gatherVaultStandard E sourceType h1))"

text \<open>
  \<^verbatim>\<open>addVaultToWorkspace\<close>: nothing to do in a native workspace; otherwise the workspace file
  is read, the folder of the vault is put in front of its folders unless an entry with the
  relative path of the vault is there, and the vault is added to the \<^verbatim>\<open>.gitignore\<close> files.
\<close>

definition addVaultToWorkspace :: "vault_env \<Rightarrow> DVault \<Rightarrow> host \<Rightarrow> unit outcome \<times> host" where
  "addVaultToWorkspace E v h =
     (if wsType E = NATIVE then (Returned (), h)
      else
        (case codeWorkspace h of
           None \<Rightarrow> (Threw noCodeWorkspaceError, h)
         | Some wsSettings \<Rightarrow>
             let h1 = (if find (\<lambda>ent. folder_path ent = getRelPath E v) (folders wsSettings) = None
                       then
                         let vault2Folder = toWorkspaceFolder E v;
                             wsSettings' = wsSettings\<lparr>folders := [vault2Folder] @ folders wsSettings\<rparr>
                         in emit (WriteCodeWorkspaceSettings wsSettings')
                              (h\<lparr>codeWorkspace := Some wsSettings'\<rparr>)
                       else h);
                 h2 = emit (AddToGitignore (fsPath v) (wsRoot E) True) h1;
                 vaultDir = pathJoin E [wsRoot E, fsPath v];
                 h3 = emit (EnsureDir vaultDir) h2;
                 h4 = emit (AddToGitignore ''.dendron.cache.*'' vaultDir False) h3
             in (Returned (), h4)))"

text \<open>The loop of \<^verbatim>\<open>addWorkspaceToWorkspace\<close> over the vaults of the workspace.\<close>

fun addVaultsToWorkspace :: "vault_env \<Rightarrow> DVault list \<Rightarrow> host \<Rightarrow> unit outcome \<times> host" where
  "addVaultsToWorkspace E [] h = (Returned (), h)"
| "addVaultsToWorkspace E (v # vs) h =
     await (addVaultToWorkspace E v h) (\<lambda>_ h1. addVaultsToWorkspace E vs h1)"

definition addWorkspaceToWorkspace :: "vault_env \<Rightarrow> DWorkspace \<Rightarrow> host \<Rightarrow> unit outcome \<times> host" where
  "addWorkspaceToWorkspace E workspace h =
     await (addVaultsToWorkspace E (ws_vaults workspace) h) (\<lambda>_ h1.
       let h2 = emit (AddToGitignore (ws_name workspace) (wsRoot E) True) h1;
           workspaceDir = pathJoin E [wsRoot E, ws_name workspace];
           h3 = emit (EnsureDir workspaceDir) h2;
           h4 = emit (AddToGitignore ''.dendron.cache.*'' workspaceDir False) h3
       in (Returned (), h4))"

text \<open>The loop of \<^verbatim>\<open>handleRemoteRepo\<close>: each vault is created, then added to the workspace.\<close>

fun createVaults :: "vault_env \<Rightarrow> DVault list \<Rightarrow> host \<Rightarrow> unit outcome \<times> host" where
  "createVaults E [] h = (Returned (), h)"
| "createVaults E (v # vs) h =
     await (addVaultToWorkspace E v (emit (CreateVault v) h)) (\<lambda>_ h1. createVaults E vs h1)"

text \<open>
  \<^verbatim>\<open>if (_.size(vaults) === 1 && opts.name) { vaults[0].name = opts.name; }\<close>. The
  assignment changes the vault in place; whether \<^verbatim>\<open>workspace.vaults\<close> holds the same object
  is decided by \<^verbatim>\<open>GitUtils.getVaultsFromRepo\<close>, and the workspace is taken here as the discovery
  gave it. The calls to git, to the workspace service and to the file system are taken to
  return: the command has no code for their failure, and the calls it does not await
  (\<^verbatim>\<open>fs.ensureDir\<close>, \<^verbatim>\<open>WorkspaceUtils.writeCodeWorkspaceSettings\<close>) are recorded where they are made.
\<close>

definition applyVaultName :: "VaultAddCommandOpts \<Rightarrow> DVault list \<Rightarrow> DVault list" where
  "applyVaultName opts vaults =
     (if length vaults = 1 \<and> truthy (opts_name opts)
      then vaults[0 := (vaults ! 0)\<lparr>vault_name := opts_name opts\<rparr>]
      else vaults)"

definition handleRemoteRepo ::
  "vault_env \<Rightarrow> VaultAddCommandOpts \<Rightarrow> host \<Rightarrow> (DVault list \<times> DWorkspace option) outcome \<times> host" where
  "handleRemoteRepo E opts h =
     (let h1 = emit (ProgressReport ''cloning repo'') h;
          baseDir = wsRoot E;
          h2 = emit (GitClone (opts_pathRemote opts) (opts_path opts)) h1;
          repoPath = pathJoin E [baseDir, opts_path opts];
          h3 = emit (GetVaultsFromRepo repoPath (wsRoot E) (opts_pathRemote opts)) h2;
          (discovered, workspace) = getVaultsFromRepo E repoPath (wsRoot E) (opts_pathRemote opts);
          vaults = applyVaultName opts discovered;
          h4 = emit (ProgressReport ''adding vault'') h3
      in (case workspace of
            Some ws \<Rightarrow>
              await (addWorkspaceToWorkspace E ws (emit (AddWorkspace ws) h4))
                (\<lambda>_ h5. (Returned (vaults, workspace), h5))
          | None \<Rightarrow>
              await (createVaults E vaults h4)
                (\<lambda>_ h5. (Returned (vaults, workspace), h5))))"

definition finishAdding :: "DVault list \<Rightarrow> host \<Rightarrow> CommandOutput outcome \<times> host" where
  "finishAdding vaults h =
     (let h1 = emit (ShowInformationMessage ''finished adding vault'') h;
          h2 = emit (ExecuteCommand ''workbench.action.reloadWindow'') h1
      in (Returned \<lparr>out_vaults = vaults\<rparr>, h2))"

text \<open>The vault that \<^verbatim>\<open>execute\<close> builds for a local source, and the calls of a remote one.\<close>

definition localVault :: "vault_env \<Rightarrow> VaultAddCommandOpts \<Rightarrow> DVault" where
  "localVault E opts =
     \<lparr>fsPath = normVaultPath E (opts_path opts) (wsRoot E), vault_name = opts_name opts,
      selfContained = opts_isSelfContained opts\<rparr>"

definition VaultAdd_execute ::
  "vault_env \<Rightarrow> VaultAddCommandOpts \<Rightarrow> host \<Rightarrow> CommandOutput outcome \<times> host" where
  "VaultAdd_execute E opts h =
     (let h1 = emit (LoggerInfo ''enter'') h
      in if opts_type opts = Remote
         then await (handleRemoteRepo E opts h1) (\<lambda>(vaults, workspace) h2. finishAdding vaults h2)
         else
           let v = localVault E opts;
               h2 = (if isSelfContained E v
                     then emit (CreateSelfContainedVault v True False) h1
                     else emit (CreateVault v) h1)
           in await (addVaultToWorkspace E v h2) (\<lambda>_ h3. finishAdding [v] h3))"

text \<open>
  Modelled from the spec: the runner of the commands (\<^verbatim>\<open>BasicCommand\<close>, in \<^verbatim>\<open>./base\<close>) is not
  among the sources. By the spec the command is a linear wizard, prompts first, and a
  dismissed prompt abandons the operation: the runner gathers the inputs and executes the
  command on them unless gathering returned \<^verbatim>\<open>undefined\<close>; an error goes to the host.
\<close>

definition VaultAdd_run :: "vault_env \<Rightarrow> host \<Rightarrow> CommandOutput option outcome \<times> host" where
  "VaultAdd_run E h =
     await (VaultAdd_gatherInputs E h) (\<lambda>inputs h1.
       case inputs of
         None \<Rightarrow> (Returned None, h1)
       | Some opts \<Rightarrow> await (VaultAdd_execute E opts h1) (\<lambda>out h2. (Returned (Some out), h2)))"

section \<open>The rename-header command\<close>

text \<open>
  What the command takes from the workspace utilities, the markdown parser, the editor and
  the engine, whose code is not part of the command. \<open>parseHeadings\<close> is
  \<^verbatim>\<open>proc.parse\<close> followed by \<^verbatim>\<open>visit(parsed, [DendronASTTypes.HEADING], ...)\<close>: the heading nodes
  of the text in the order they are visited. The slugger made by \<^verbatim>\<open>getSlugger()\<close> is an
  object that may remember what it has slugged: \<open>slug\<close> takes the texts it was given
  before, then the text.
\<close>

record rename_env =
  getActiveNote :: "TextEditor option \<Rightarrow> NoteProps option"
  getNoteFromDocument :: "TextDocument \<Rightarrow> NoteProps option"
  parseHeadings :: "string \<Rightarrow> Heading list"
  headerText :: "Heading \<Rightarrow> string"
  headerTextPosition :: "Heading \<Rightarrow> Range"
  position2VSCodeRange :: "Range \<Rightarrow> nat \<Rightarrow> Range"
  replaceRange :: "TextDocument \<Rightarrow> Range \<Rightarrow> string \<Rightarrow> TextDocument"
  slug :: "string list \<Rightarrow> string \<Rightarrow> string"
  vaultName :: "DVault \<Rightarrow> string"
  renameNote :: "DNoteLoc \<Rightarrow> DNoteLoc \<Rightarrow> RenameNoteResp"

definition selectHeaderError :: DendronError where
  "selectHeaderError =
     \<lparr>message = ''You must first select the header you want to rename.'', status = None\<rparr>"

definition openNoteError :: DendronError where
  "openNoteError =
     \<lparr>message = ''You must first open a note to rename a header.'', status = None\<rparr>"

text \<open>\<^verbatim>\<open>document.lineAt(n)\<close>: the editor raises an error for a line the document does not have.\<close>

definition illegalLineError :: DendronError where
  "illegalLineError = \<lparr>message = ''Illegal value for line'', status = None\<rparr>"

definition lineAt :: "TextDocument \<Rightarrow> nat \<Rightarrow> string outcome" where
  "lineAt doc n =
     (if n < length (doc_lines doc) then Returned (doc_lines doc ! n)
      else Threw illegalLineError)"

text \<open>
  The branch \<^verbatim>\<open>if (_.isUndefined(oldHeader))\<close> of \<^verbatim>\<open>gatherInputs\<close>: the header is parsed from
  the line of the selection; the callback of \<^verbatim>\<open>visit\<close> returns false, so the first heading
  visited is the one taken.
\<close>

definition parseOldHeader :: "rename_env \<Rightarrow> host \<Rightarrow> OldHeader outcome \<times> host" where
  "parseOldHeader E h =
     (case activeTextEditor h of
        None \<Rightarrow> (Threw selectHeaderError, h)
      | Some editor \<Rightarrow>
          (case selection editor of
             None \<Rightarrow> (Threw selectHeaderError, h)
           | Some sel \<Rightarrow>
               await (lineAt (document editor) (line sel), h) (\<lambda>lineText h0.
                 let h1 = emit (Parse lineText) h0
                 in (case parseHeadings E lineText of
                       [] \<Rightarrow> (Threw selectHeaderError, h1)
                     | header # _ \<Rightarrow>
                         let range = position2VSCodeRange E (headerTextPosition E header) (line sel);
                             txt = headerText E header
                         in (Returned \<lparr>header_text = txt, header_range = range\<rparr>, h1)))))"

text \<open>
  \<^verbatim>\<open>gatherInputs\<close> starts with \<^verbatim>\<open>const { oldHeader, newHeader, source } = opts || {}\<close>. It
  throws when no note is open; it takes the old header given or parses it from the line;
  it takes the new header given or asks for it, and returns \<^verbatim>\<open>undefined\<close> at
  \<^verbatim>\<open>if (!newHeader) return\<close>, that is when the input box was dismissed or left empty (the
  value \<open>None\<close> of the second \<open>await\<close> below); the source defaults to the command palette.
\<close>

definition oldHeaderOf :: "RenameHeaderOpts option \<Rightarrow> OldHeader option" where
  "oldHeaderOf opts = (case opts of None \<Rightarrow> None | Some opt \<Rightarrow> oldHeader opt)"

definition newHeaderOf :: "RenameHeaderOpts option \<Rightarrow> string option" where
  "newHeaderOf opts = (case opts of None \<Rightarrow> None | Some opt \<Rightarrow> newHeader opt)"

definition sourceOf :: "RenameHeaderOpts option \<Rightarrow> string option" where
  "sourceOf opts = (case opts of None \<Rightarrow> None | Some opt \<Rightarrow> opt_source opt)"

definition RenameHeader_gatherInputs ::
  "rename_env \<Rightarrow> RenameHeaderOpts option \<Rightarrow> host \<Rightarrow> RequiredRenameHeaderOpts option outcome \<times> host" where
  "RenameHeader_gatherInputs E opts h =
     (let oldHeader0 = oldHeaderOf opts;
          newHeader0 = newHeaderOf opts;
          source0 = sourceOf opts
      in (case getActiveNote E (activeTextEditor h) of
            None \<Rightarrow> (Threw openNoteError, h)
          | Some activeNote \<Rightarrow>
              await (case oldHeader0 of
                       None \<Rightarrow> parseOldHeader E h
                     | Some given \<Rightarrow> (Returned given, h)) (\<lambda>oldHeader1 h1.
                await (case newHeader0 of
                         None \<Rightarrow>
                           let (answer, h2) = showInputBox ''Enter the new header text''
                                                (Some (header_text oldHeader1)) h1
                           in (Returned (if truthy answer then answer else None), h2)
                       | Some given \<Rightarrow> (Returned (Some given), h1)) (\<lambda>newHeader1 h2.
                  (case newHeader1 of
                     None \<Rightarrow> (Returned None, h2)
                   | Some newHeader2 \<Rightarrow>
                       (Returned (Some \<lparr>req_oldHeader = oldHeader1, req_newHeader = newHeader2,
                          req_source = (case source0 of None \<Rightarrow> ''command palette'' | Some s \<Rightarrow> s),
                          req_note = activeNote\<rparr>), h2))))))"

text \<open>The host once the input box for the new header has been shown and answered.\<close>

definition newHeaderPrompt :: "OldHeader \<Rightarrow> host \<Rightarrow> host" where
  "newHeaderPrompt oh h = snd (showInputBox ''Enter the new header text'' (Some (header_text oh)) h)"

text \<open>
  \<^verbatim>\<open>execute\<close>. The new header is parsed again as \<^verbatim>\<open>## ${newHeader}\<close>; the callback of this
  \<^verbatim>\<open>visit\<close> returns nothing, so every heading is visited and the last one gives the anchor
  text. One slugger makes both slugs, the old header first.
\<close>

definition newAnchorHeaderOf :: "rename_env \<Rightarrow> string \<Rightarrow> string" where
  "newAnchorHeaderOf E newHeader1 =
     (case parseHeadings E (''## '' @ newHeader1) of
        [] \<Rightarrow> newHeader1
      | node # nodes \<Rightarrow> headerText E (last (node # nodes)))"

definition oldLocOf :: "rename_env \<Rightarrow> NoteProps \<Rightarrow> OldHeader \<Rightarrow> DNoteLoc" where
  "oldLocOf E docNote oldHeader1 =
     \<lparr>loc_fname = fname docNote, loc_vaultName = vaultName E (vault docNote),
      anchorHeader = slug E [] (header_text oldHeader1),
      loc_alias = header_text oldHeader1\<rparr>"

definition newLocOf :: "rename_env \<Rightarrow> NoteProps \<Rightarrow> OldHeader \<Rightarrow> string \<Rightarrow> DNoteLoc" where
  "newLocOf E docNote oldHeader1 newAnchorHeader =
     \<lparr>loc_fname = fname docNote, loc_vaultName = vaultName E (vault docNote),
      anchorHeader = slug E [header_text oldHeader1] newAnchorHeader,
      loc_alias = newAnchorHeader\<rparr>"

definition RenameHeader_execute ::
  "rename_env \<Rightarrow> RenameHeaderOpts option \<Rightarrow> host \<Rightarrow> RenameNoteResp option outcome \<times> host" where
  "RenameHeader_execute E opts h =
     (let oldHeader0 = oldHeaderOf opts;
          newHeader0 = newHeaderOf opts;
          h1 = emit (LoggerInfo ''enter'') h
      in (case newHeader0 of
            None \<Rightarrow> (Returned None, h1)
          | Some newHeader1 \<Rightarrow>
          (case oldHeader0 of
            None \<Rightarrow> (Returned None, h1)
          | Some oldHeader1 \<Rightarrow>
          (case activeTextEditor h1 of
            None \<Rightarrow> (Returned None, h1)
          | Some editor \<Rightarrow>
          (case getNoteFromDocument E (document editor) of
            None \<Rightarrow> (Returned None, h1)
          | Some docNote \<Rightarrow>
              let edited = editor\<lparr>document :=
                             replaceRange E (document editor) (header_range oldHeader1) newHeader1\<rparr>;
                  h2 = emit (EditReplace (header_range oldHeader1) newHeader1)
                         (h1\<lparr>activeTextEditor := Some edited\<rparr>);
                  h3 = emit (Parse (''## '' @ newHeader1)) h2;
                  newAnchorHeader = newAnchorHeaderOf E newHeader1;
                  h4 = emit DocumentSave (h3\<lparr>disk := doc_lines (document edited)\<rparr>);
                  h5 = emit DelayedUpdateDecorations h4;
                  oldLoc = oldLocOf E docNote oldHeader1;
                  newLoc = newLocOf E docNote oldHeader1 newAnchorHeader;
                  h6 = emit (RenameNote oldLoc newLoc) h5
              in (Returned (Some (renameNote E oldLoc newLoc)), h6))))))"

text \<open>
  Modelled from the spec: the runner (\<^verbatim>\<open>BasicCommand\<close>) is not among the sources; as for the
  vault-add command, it executes the command on the gathered inputs unless gathering
  returned \<^verbatim>\<open>undefined\<close>.
\<close>

definition RenameHeader_run ::
  "rename_env \<Rightarrow> RenameHeaderOpts option \<Rightarrow> host \<Rightarrow> RenameNoteResp option outcome \<times> host" where
  "RenameHeader_run E opts h =
     await (RenameHeader_gatherInputs E opts h) (\<lambda>inputs h1.
       case inputs of
         None \<Rightarrow> (Returned None, h1)
       | Some req \<Rightarrow>
           RenameHeader_execute E
             (Some \<lparr>oldHeader = Some (req_oldHeader req), newHeader = Some (req_newHeader req),
                    opt_source = Some (req_source req), opt_note = Some (req_note req)\<rparr>) h1)"

section \<open>The engine\<close>

text \<open>
  The engine tests (\<^verbatim>\<open>describe("matchDomain")\<close>) write schema files and note files into a
  vault, build an engine over the vault with a file store, call \<^verbatim>\<open>engine.init()\<close> and read
  \<^verbatim>\<open>engine.notes[name].schema\<close>. The engine has the notes and schema modules its store reads
  from the vault, and the two mappings it serves.
\<close>

record DEngine =
  store_notes :: "NoteProps list"
  store_schemas :: "SchemaModuleProps list"
  engine_notes :: "string \<rightharpoonup> NoteProps"
  engine_schemas :: SchemaModuleDict

fun loadSchemas :: "SchemaModuleProps list \<Rightarrow> SchemaModuleDict \<Rightarrow> SchemaModuleDict" where
  "loadSchemas [] schemaModDict = schemaModDict"
| "loadSchemas (m # ms) schemaModDict = loadSchemas ms (updateSchema m schemaModDict)"

text \<open>
  The schema association of a note name: the id under which the matching module is in the
  dictionary, and the id of the schema \<^verbatim>\<open>matchPath\<close> returns.
\<close>

definition schemaOf :: "string \<Rightarrow> SchemaModuleDict \<Rightarrow> SchemaAssoc option" where
  "schemaOf notePath schemaModDict =
     (case matchPath notePath schemaModDict of
        None \<Rightarrow> None
      | Some r \<Rightarrow> Some \<lparr>moduleId = domainName notePath, schemaId = schema_id (schema r)\<rparr>)"

text \<open>
  Modelled from the spec: \<^verbatim>\<open>DendronEngineV2.init\<close> is not among the sources. The spec
  describes the engine as parsing, indexing and linking the notes and schemas of a vault,
  with \<^verbatim>\<open>notes\<close> (here \<open>engine_notes\<close>) a mapping from note name to note record with schema field and \<^verbatim>\<open>schemas\<close>
  (here \<open>engine_schemas\<close>) a mapping from module id to schema module, and a note as having a schema association
  (moduleId/schemaId pair): \<^verbatim>\<open>init\<close> stores each schema module of the vault under its id,
  then stores each note under its name with the association of the schema that matches
  the name.
\<close>

definition init :: "DEngine \<Rightarrow> DEngine" where
  "init e =
     (let schemas' = loadSchemas (store_schemas e) Map.empty;
          notes' = map_of (map (\<lambda>n. (fname n, n\<lparr>note_schema := schemaOf (fname n) schemas'\<rparr>))
                            (store_notes e))
      in e\<lparr>engine_schemas := schemas', engine_notes := notes'\<rparr>)"

section \<open>Setting up an engine from the command line\<close>

text \<open>
  The test of \<^verbatim>\<open>setupEngine\<close> runs inside \<^verbatim>\<open>runEngineTestV5\<close>, which gives it the workspace
  root, the engine running for the test and its port, and compares \<^verbatim>\<open>resp.engine.notes\<close> and
  \<^verbatim>\<open>resp.port\<close> with them. The processes of the machine are the engine servers that run,
  by workspace root, and the port files written.
\<close>

record SetupEngineOpts =
  se_wsRoot :: string
  noWritePort :: bool
  attach :: bool
  target :: string

record EngineServer =
  server_port :: nat
  server_engine :: DEngine

record SetupEngineResp =
  resp_engine :: DEngine
  resp_port :: nat
  resp_server :: EngineServer

record machine =
  running :: "string \<rightharpoonup> EngineServer"
  portFile :: "string \<rightharpoonup> nat"
  spawned :: nat

definition noEngineError :: DendronError where
  "noEngineError = \<lparr>message = ''no running engine to attach to'', status = None\<rparr>"

text \<open>
  Modelled from the spec: \<^verbatim>\<open>setupEngine\<close> (package \<^verbatim>\<open>dendron-cli\<close>) is not among the sources.
  The spec gives \<^verbatim>\<open>setupEngine({wsRoot, noWritePort, attach, target}) -> {engine, port, server}\<close>,
  used to attach to an already-running engine process via a TCP port rather than
  spawning a new one. With \<^verbatim>\<open>attach\<close> the engine running for the workspace is the one
  returned, with its port; without it a new engine is spawned (\<open>launch\<close> is the server
  that spawning gives) and its port is written unless \<^verbatim>\<open>noWritePort\<close> is set.
\<close>

definition setupEngine ::
  "(SetupEngineOpts \<Rightarrow> EngineServer) \<Rightarrow> SetupEngineOpts \<Rightarrow> machine
     \<Rightarrow> (DendronError + SetupEngineResp) \<times> machine" where
  "setupEngine launch opts w =
     (if attach opts
      then (case running w (se_wsRoot opts) of
              None \<Rightarrow> (Inl noEngineError, w)
            | Some srv \<Rightarrow>
                (Inr \<lparr>resp_engine = server_engine srv, resp_port = server_port srv,
                      resp_server = srv\<rparr>, w))
      else
        let srv = launch opts;
            w1 = w\<lparr>running := (running w)(se_wsRoot opts \<mapsto> srv), spawned := Suc (spawned w)\<rparr>;
            w2 = (if noWritePort opts then w1
                  else w1\<lparr>portFile := (portFile w1)(se_wsRoot opts \<mapsto> server_port srv)\<rparr>)
        in (Inr \<lparr>resp_engine = server_engine srv, resp_port = server_port srv,
                 resp_server = srv\<rparr>, w2))"

section \<open>Kinds of calls\<close>

text \<open>
  The calls are sorted by what they do: those that only show something to the user or
  ask for input, those that register a vault or a workspace with the workspace service,
  and those that patch files of the workspace (the workspace file, the \<^verbatim>\<open>.gitignore\<close> files
  and the directories they are in).
\<close>

fun isPrompt :: "event \<Rightarrow> bool" where
  "isPrompt (ShowQuickPick items) = True"
| "isPrompt (CreateQuickPick items) = True"
| "isPrompt QuickPickHide = True"
| "isPrompt (ShowInputBox prompt initial) = True"
| "isPrompt (ShowInformationMessage msg) = True"
| "isPrompt e = False"

fun isRegistration :: "event \<Rightarrow> bool" where
  "isRegistration (AddWorkspace ws) = True"
| "isRegistration (CreateVault v) = True"
| "isRegistration (CreateSelfContainedVault v addToConfig addToCodeWorkspace) = True"
| "isRegistration e = False"

fun isRemoteStep :: "event \<Rightarrow> bool" where
  "isRemoteStep (ProgressReport msg) = True"
| "isRemoteStep (GitClone url dir) = True"
| "isRemoteStep (GetVaultsFromRepo repoPath wsRoot' url) = True"
| "isRemoteStep e = False"

fun isPatch :: "event \<Rightarrow> bool" where
  "isPatch (WriteCodeWorkspaceSettings s) = True"
| "isPatch (AddToGitignore addPath dir noCreateIfMissing) = True"
| "isPatch (EnsureDir dir) = True"
| "isPatch e = False"

fun createdVaults :: "event list \<Rightarrow> DVault list" where
  "createdVaults [] = []"
| "createdVaults (CreateVault v # es) = v # createdVaults es"
| "createdVaults (e # es) = createdVaults es"

definition isWork :: "event \<Rightarrow> bool" where
  "isWork e = (isRemoteStep e \<or> isRegistration e \<or> isPatch e)"

text \<open>The calls made between two states of the host.\<close>

definition newEvents :: "host \<Rightarrow> host \<Rightarrow> event list" where
  "newEvents h h' = drop (length (trace h)) (trace h')"

text \<open>
  Between two states of the host only prompts were made: the trace grew by prompts and
  messages, and the workspace file, the editor and the saved document are as before.
\<close>

definition promptsOnly :: "host \<Rightarrow> host \<Rightarrow> bool" where
  "promptsOnly h h' =
     (take (length (trace h)) (trace h') = trace h \<and> list_all isPrompt (newEvents h h') \<and>
      codeWorkspace h' = codeWorkspace h \<and> activeTextEditor h' = activeTextEditor h \<and>
      disk h' = disk h)"

text \<open>The calls \<^verbatim>\<open>handleRemoteRepo\<close> makes before it registers anything.\<close>

definition remoteSteps :: "vault_env \<Rightarrow> VaultAddCommandOpts \<Rightarrow> event list" where
  "remoteSteps E opts =
     [ProgressReport ''cloning repo'',
      GitClone (opts_pathRemote opts) (opts_path opts),
      GetVaultsFromRepo (pathJoin E [wsRoot E, opts_path opts]) (wsRoot E) (opts_pathRemote opts),
      ProgressReport ''adding vault'']"

text \<open>The call that registers the vault of a local source.\<close>

definition registerLocal :: "vault_env \<Rightarrow> VaultAddCommandOpts \<Rightarrow> event" where
  "registerLocal E opts =
     (if isSelfContained E (localVault E opts)
      then CreateSelfContainedVault (localVault E opts) True False
      else CreateVault (localVault E opts))"

text \<open>The call that adds a vault to the \<^verbatim>\<open>.gitignore\<close> of the workspace root.\<close>

definition gitignored :: "vault_env \<Rightarrow> DVault \<Rightarrow> event" where
  "gitignored E v = AddToGitignore (fsPath v) (wsRoot E) True"

definition reloadWindow :: event where
  "reloadWindow = ExecuteCommand ''workbench.action.reloadWindow''"

section \<open>Concrete inputs\<close>

text \<open>
  A workspace opened through a \<^verbatim>\<open>dendron.code-workspace\<close> file with one folder, and helpers
  that behave as their names say on plain relative paths.
\<close>

definition example_env :: vault_env where
  "example_env =
     \<lparr>wsRoot = ''/ws'', wsType = CODE,
      config_vaults = Some [\<lparr>fsPath = ''notes'', vault_name = None, selfContained = None\<rparr>],
      enableSelfContainedVaults = False,
      getName = (\<lambda>v. case vault_name v of None \<Rightarrow> fsPath v | Some n \<Rightarrow> n),
      getRelPath = fsPath,
      toWorkspaceFolder = (\<lambda>v. \<lparr>folder_path = fsPath v, folder_name = vault_name v\<rparr>),
      normVaultPath = (\<lambda>p r. p),
      isSelfContained = (\<lambda>v. selfContained v = Some True),
      getRepoNameFromURL = (\<lambda>url. ''repo''),
      remoteUrlToDependencyPath = (\<lambda>n url. n),
      getVaultsFromRepo = (\<lambda>repoPath r url.
        ([\<lparr>fsPath = ''repo'', vault_name = None, selfContained = None\<rparr>], None)),
      pathJoin = (\<lambda>ps. foldr (\<lambda>a b. if b = [] then a else a @ ''/'' @ b) ps []),
      FOLDERS_DEPENDENCIES = ''dependencies'',
      FOLDERS_LOCAL_DEPENDENCY = ''localhost'',
      DENDRON_REMOTE_VAULTS = [(''dendron'', ''dendron.so notes'', ''https://github.com/dendronhq/dendron-site-vault.git'')]\<rparr>"

definition example_host :: host where
  "example_host =
     \<lparr>inputBox = [], quickPick = None, accepts = [],
      codeWorkspace = Some \<lparr>folders = [\<lparr>folder_path = ''notes'', folder_name = None\<rparr>], settings = ''{}''\<rparr>,
      activeTextEditor = None, disk = [], trace = []\<rparr>"

definition example_vault :: DVault where
  "example_vault = \<lparr>fsPath = ''vault2'', vault_name = None, selfContained = None\<rparr>"

definition example_remote_opts :: VaultAddCommandOpts where
  "example_remote_opts =
     \<lparr>opts_type = Remote, opts_path = ''repo'',
      opts_pathRemote = Some ''https://example.com/repo.git'',
      opts_name = Some ''wiki'', opts_isSelfContained = None\<rparr>"

text \<open>
  An editor on a note with two lines, the cursor on the header of the second; a parser
  that finds a heading in a line that starts with \<^verbatim>\<open>## \<close>; a slugger that puts dashes for
  spaces and numbers a slug it has made before.
\<close>

definition example_note :: NoteProps where
  "example_note =
     \<lparr>fname = ''foo'', vault = \<lparr>fsPath = ''notes'', vault_name = None, selfContained = None\<rparr>,
      note_schema = None\<rparr>"

definition dashes :: "string \<Rightarrow> string" where
  "dashes s = map (\<lambda>c. if c = CHR '' '' then CHR ''-'' else c) s"

definition example_rename_env :: rename_env where
  "example_rename_env =
     \<lparr>getActiveNote = (\<lambda>ed. case ed of None \<Rightarrow> None | Some e \<Rightarrow> Some example_note),
      getNoteFromDocument = (\<lambda>doc. Some example_note),
      parseHeadings = (\<lambda>s. if take 3 s = ''## ''
                            then [\<lparr>depth = 2, raw = drop 3 s,
                                   position = \<lparr>range_start = \<lparr>line = 0, character = 3\<rparr>,
                                                range_end = \<lparr>line = 0, character = length s\<rparr>\<rparr>\<rparr>]
                            else []),
      headerText = raw,
      headerTextPosition = position,
      position2VSCodeRange = (\<lambda>r n. \<lparr>range_start = (range_start r)\<lparr>line := n\<rparr>,
                                       range_end = (range_end r)\<lparr>line := n\<rparr>\<rparr>),
      replaceRange = (\<lambda>doc r s. doc\<lparr>doc_lines :=
                        (doc_lines doc)[line (range_start r) :=
                           take (character (range_start r)) (doc_lines doc ! line (range_start r)) @ s]\<rparr>),
      slug = (\<lambda>seen s. if dashes s \<in> set (map dashes seen) then dashes s @ ''-1'' else dashes s),
      vaultName = (\<lambda>v. case vault_name v of None \<Rightarrow> fsPath v | Some n \<Rightarrow> n),
      renameNote = (\<lambda>oldLoc newLoc. [(loc_fname oldLoc, 1)])\<rparr>"

definition example_editor :: TextEditor where
  "example_editor =
     \<lparr>document = \<lparr>doc_lines = [''# Title'', ''## Old header'']\<rparr>,
      selection = Some \<lparr>line = 1, character = 5\<rparr>\<rparr>"

text \<open>
  The vault of the engine tests: the schema module \<^verbatim>\<open>foo\<close>, the namespace schema module
  \<^verbatim>\<open>bond\<close>, and the notes \<^verbatim>\<open>foo\<close>, \<^verbatim>\<open>bond\<close> and \<^verbatim>\<open>bond.ch1\<close>.
\<close>

definition example_engine :: DEngine where
  "example_engine =
     \<lparr>store_notes =
        [example_note, example_note\<lparr>fname := ''bond''\<rparr>, example_note\<lparr>fname := ''bond.ch1''\<rparr>],
      store_schemas =
        [createModuleProps ''foo'', \<lparr>root = \<lparr>schema_id = ''bond'', namespace = True\<rparr>\<rparr>],
      engine_notes = Map.empty, engine_schemas = Map.empty\<rparr>"

definition example_machine :: machine where
  "example_machine =
     \<lparr>running = [''/ws'' \<mapsto> \<lparr>server_port = 3005, server_engine = init example_engine\<rparr>],
      portFile = [''/ws'' \<mapsto> 3005], spawned = 1\<rparr>"

subsection \<open>Properties of the path matching\<close>

lemma domainName_dotfree: "CHR ''.'' \<notin> set N \<Longrightarrow> domainName N = N"
  by (auto simp: domainName_def)

lemma domainName_child: "CHR ''.'' \<notin> set N \<Longrightarrow> domainName (N @ CHR ''.'' # suffix) = N"
  by (simp add: domainName_def takeWhile_append)

lemma matchPath_Some_lookup:
  assumes "matchPath notePath schemaModDict = Some r"
  shows "\<exists>m. schemaModDict (domainName notePath) = Some m \<and> schema r = root m \<and>
             (notePath = domainName notePath \<or> namespace (root m))"
  using assms by (auto simp: matchPath_def split: option.splits if_splits)

text \<open>
  C1. A module flagged "namespace" whose root is named \<open>N\<close> is the result for the path
  \<open>N\<close> and for every child path \<open>N.<suffix>\<close>, so the returned schema id is \<open>N\<close>. A module
  with id \<open>F\<close> that is not a namespace is the result for the path \<open>F\<close>, and no other path
  resolves to the schema id \<open>F\<close>. The names \<open>N\<close> and \<open>F\<close> are domain names (no dot), and the
  dictionary is keyed by module id.
\<close>

theorem matchPath_namespace_and_regular:
  "(schemaModDict N = Some m \<and> schema_id (root m) = N \<and> namespace (root m) \<and>
      CHR ''.'' \<notin> set N \<longrightarrow>
      matchPath N schemaModDict = Some \<lparr>schema = root m\<rparr> \<and>
      (\<forall>suffix. matchPath (N @ CHR ''.'' # suffix) schemaModDict = Some \<lparr>schema = root m\<rparr>) \<and>
      (\<forall>suffix r. matchPath (N @ CHR ''.'' # suffix) schemaModDict = Some r \<longrightarrow>
         schema_id (schema r) = N)) \<and>
   (keyedByRootId schemaModDict \<and> schemaModDict F = Some m' \<and> \<not> namespace (root m') \<and>
      CHR ''.'' \<notin> set F \<longrightarrow>
      matchPath F schemaModDict = Some \<lparr>schema = root m'\<rparr> \<and>
      (\<forall>notePath r. matchPath notePath schemaModDict = Some r \<and> schema_id (schema r) = F
         \<longrightarrow> notePath = F))"
proof (intro conjI impI allI)
  assume a: "schemaModDict N = Some m \<and> schema_id (root m) = N \<and> namespace (root m) \<and>
      CHR ''.'' \<notin> set N"
  then show "matchPath N schemaModDict = Some \<lparr>schema = root m\<rparr>"
    by (simp add: matchPath_def domainName_dotfree)
  fix suffix
  from a show child: "matchPath (N @ CHR ''.'' # suffix) schemaModDict = Some \<lparr>schema = root m\<rparr>"
    by (simp add: matchPath_def domainName_child)
  fix r
  assume "matchPath (N @ CHR ''.'' # suffix) schemaModDict = Some r"
  with child a show "schema_id (schema r) = N" by auto
next
  assume b: "keyedByRootId schemaModDict \<and> schemaModDict F = Some m' \<and>
      \<not> namespace (root m') \<and> CHR ''.'' \<notin> set F"
  then show "matchPath F schemaModDict = Some \<lparr>schema = root m'\<rparr>"
    by (simp add: matchPath_def domainName_dotfree)
  fix notePath r
  assume c: "matchPath notePath schemaModDict = Some r \<and> schema_id (schema r) = F"
  then obtain m2 where m2: "schemaModDict (domainName notePath) = Some m2"
      "schema r = root m2" "notePath = domainName notePath \<or> namespace (root m2)"
    using matchPath_Some_lookup by blast
  from b m2(1) have "schema_id (root m2) = domainName notePath"
    by (simp add: keyedByRootId_def)
  with c m2(2) have d: "domainName notePath = F" by simp
  with b m2(1) have "m2 = m'" by simp
  with b m2(3) d show "notePath = F" by simp
qed

theorem matchPath_namespace_and_regular_witness:
  "matchPath ''bond'' [''bond'' \<mapsto> \<lparr>root = \<lparr>schema_id = ''bond'', namespace = True\<rparr>\<rparr>]
     = Some \<lparr>schema = \<lparr>schema_id = ''bond'', namespace = True\<rparr>\<rparr> \<and>
   matchPath ''bond.foo'' [''bond'' \<mapsto> \<lparr>root = \<lparr>schema_id = ''bond'', namespace = True\<rparr>\<rparr>]
     = Some \<lparr>schema = \<lparr>schema_id = ''bond'', namespace = True\<rparr>\<rparr> \<and>
   keyedByRootId [''foo'' \<mapsto> createModuleProps ''foo''] \<and>
   matchPath ''foo'' [''foo'' \<mapsto> createModuleProps ''foo'']
     = Some \<lparr>schema = \<lparr>schema_id = ''foo'', namespace = False\<rparr>\<rparr> \<and>
   matchPath ''foo.ch1'' [''foo'' \<mapsto> createModuleProps ''foo''] = None"
proof -
  let ?bond = "\<lparr>root = \<lparr>schema_id = ''bond'', namespace = True\<rparr>\<rparr>"
  let ?d1 = "[''bond'' \<mapsto> ?bond]"
  let ?d2 = "[''foo'' \<mapsto> createModuleProps ''foo'']"
  have k: "keyedByRootId ?d2"
    by (simp add: keyedByRootId_def createModuleProps_def)
  have h1: "?d1 ''bond'' = Some ?bond \<and> schema_id (root ?bond) = ''bond'' \<and>
      namespace (root ?bond) \<and> CHR ''.'' \<notin> set ''bond''" by simp
  have h2: "keyedByRootId ?d2 \<and> ?d2 ''foo'' = Some (createModuleProps ''foo'') \<and>
      \<not> namespace (root (createModuleProps ''foo'')) \<and> CHR ''.'' \<notin> set ''foo''"
    using k by (simp add: createModuleProps_def)
  note t1 = matchPath_namespace_and_regular
    [where schemaModDict = ?d1 and N = "''bond''" and m = ?bond,
      THEN conjunct1, rule_format, OF h1]
  note t2 = matchPath_namespace_and_regular
    [where schemaModDict = ?d2 and F = "''foo''" and m' = "createModuleProps ''foo''",
      THEN conjunct2, rule_format, OF h2]
  have c: "matchPath ''bond.foo'' ?d1 = Some \<lparr>schema = root ?bond\<rparr>"
    using t1[THEN conjunct2, THEN conjunct1, rule_format, of "''foo''"] by simp
  have n: "matchPath ''foo.ch1'' ?d2 = None"
    by (simp add: matchPath_def domainName_def createModuleProps_def)
  from t1 t2 c n k show ?thesis by (simp add: createModuleProps_def)
qed


section \<open>Properties of the commands\<close>

subsection \<open>Basic facts about the host\<close>

lemma emit_fields [simp]:
  "trace (emit e h) = trace h @ [e]"
  "inputBox (emit e h) = inputBox h"
  "quickPick (emit e h) = quickPick h"
  "accepts (emit e h) = accepts h"
  "codeWorkspace (emit e h) = codeWorkspace h"
  "activeTextEditor (emit e h) = activeTextEditor h"
  "disk (emit e h) = disk h"
  by (simp_all add: emit_def)

lemma await_simps [simp]:
  "await (Returned a, h) k = k a h"
  "await (Threw e, h) k = (Threw e, h)"
  "await (Pending, h) k = (Pending, h)"
  by (simp_all add: await_def)

lemma addVaultToWorkspace_present:
  assumes "wsType E \<noteq> NATIVE" "codeWorkspace h = Some ws"
      "find (\<lambda>ent. folder_path ent = getRelPath E v) (folders ws) \<noteq> None"
  shows "addVaultToWorkspace E v h =
     (Returned (), emit (AddToGitignore ''.dendron.cache.*'' (pathJoin E [wsRoot E, fsPath v]) False)
        (emit (EnsureDir (pathJoin E [wsRoot E, fsPath v]))
          (emit (AddToGitignore (fsPath v) (wsRoot E) True) h)))"
  using assms by (auto simp: addVaultToWorkspace_def Let_def)

lemma addVaultToWorkspace_absent:
  assumes "wsType E \<noteq> NATIVE" "codeWorkspace h = Some ws"
      "find (\<lambda>ent. folder_path ent = getRelPath E v) (folders ws) = None"
  shows "addVaultToWorkspace E v h =
     (Returned (), emit (AddToGitignore ''.dendron.cache.*'' (pathJoin E [wsRoot E, fsPath v]) False)
        (emit (EnsureDir (pathJoin E [wsRoot E, fsPath v]))
          (emit (AddToGitignore (fsPath v) (wsRoot E) True)
            (emit (WriteCodeWorkspaceSettings (ws\<lparr>folders := toWorkspaceFolder E v # folders ws\<rparr>))
               (h\<lparr>codeWorkspace := Some (ws\<lparr>folders := toWorkspaceFolder E v # folders ws\<rparr>)\<rparr>)))))"
  using assms by (simp add: addVaultToWorkspace_def Let_def)

lemma find_None_iff2: "(find P xs = None) = (\<not> (\<exists>x\<in>set xs. P x))"
  by (auto simp: find_None_iff)

subsection \<open>Adding a vault to the workspace file\<close>

text \<open>
  C9. \<^verbatim>\<open>addVaultToWorkspace\<close> and the folders of the workspace file. When a folder entry
  with the relative path of the vault is present, the file is not written: the settings
  are unchanged and the only calls are those for the \<^verbatim>\<open>.gitignore\<close> files. When none is
  present, the folder entry of the vault is put in front of the folders and the file is
  written once. When the entry made for a vault carries its relative path, running the
  operation a second time leaves the file as the first run left it.
\<close>

theorem addVaultToWorkspace_idempotent:
  "(wsType E \<noteq> NATIVE \<and> codeWorkspace h = Some ws \<and>
      (\<exists>ent\<in>set (folders ws). folder_path ent = getRelPath E v) \<longrightarrow>
      fst (addVaultToWorkspace E v h) = Returned () \<and>
      codeWorkspace (snd (addVaultToWorkspace E v h)) = Some ws \<and>
      trace (snd (addVaultToWorkspace E v h)) = trace h @
        [AddToGitignore (fsPath v) (wsRoot E) True,
         EnsureDir (pathJoin E [wsRoot E, fsPath v]),
         AddToGitignore ''.dendron.cache.*'' (pathJoin E [wsRoot E, fsPath v]) False]) \<and>
   (wsType E \<noteq> NATIVE \<and> codeWorkspace h = Some ws \<and>
      \<not> (\<exists>ent\<in>set (folders ws). folder_path ent = getRelPath E v) \<longrightarrow>
      fst (addVaultToWorkspace E v h) = Returned () \<and>
      codeWorkspace (snd (addVaultToWorkspace E v h))
        = Some (ws\<lparr>folders := toWorkspaceFolder E v # folders ws\<rparr>) \<and>
      trace (snd (addVaultToWorkspace E v h)) = trace h @
        [WriteCodeWorkspaceSettings (ws\<lparr>folders := toWorkspaceFolder E v # folders ws\<rparr>),
         AddToGitignore (fsPath v) (wsRoot E) True,
         EnsureDir (pathJoin E [wsRoot E, fsPath v]),
         AddToGitignore ''.dendron.cache.*'' (pathJoin E [wsRoot E, fsPath v]) False]) \<and>
   (folder_path (toWorkspaceFolder E v) = getRelPath E v \<longrightarrow>
      codeWorkspace (snd (await (addVaultToWorkspace E v h) (\<lambda>_. addVaultToWorkspace E v)))
        = codeWorkspace (snd (addVaultToWorkspace E v h)))"
proof (intro conjI impI)
  assume a: "wsType E \<noteq> NATIVE \<and> codeWorkspace h = Some ws \<and>
      (\<exists>ent\<in>set (folders ws). folder_path ent = getRelPath E v)"
  then have f: "find (\<lambda>ent. folder_path ent = getRelPath E v) (folders ws) \<noteq> None"
    by (simp add: find_None_iff2)
  from a f show "fst (addVaultToWorkspace E v h) = Returned ()"
    by (simp add: addVaultToWorkspace_present)
  from a f show "codeWorkspace (snd (addVaultToWorkspace E v h)) = Some ws"
    by (simp add: addVaultToWorkspace_present)
  from a f show "trace (snd (addVaultToWorkspace E v h)) = trace h @
        [AddToGitignore (fsPath v) (wsRoot E) True,
         EnsureDir (pathJoin E [wsRoot E, fsPath v]),
         AddToGitignore ''.dendron.cache.*'' (pathJoin E [wsRoot E, fsPath v]) False]"
    by (simp add: addVaultToWorkspace_present)
next
  assume a: "wsType E \<noteq> NATIVE \<and> codeWorkspace h = Some ws \<and>
      \<not> (\<exists>ent\<in>set (folders ws). folder_path ent = getRelPath E v)"
  then have f: "find (\<lambda>ent. folder_path ent = getRelPath E v) (folders ws) = None"
    by (simp add: find_None_iff2)
  from a f show "fst (addVaultToWorkspace E v h) = Returned ()"
    by (simp add: addVaultToWorkspace_absent)
  from a f show "codeWorkspace (snd (addVaultToWorkspace E v h))
        = Some (ws\<lparr>folders := toWorkspaceFolder E v # folders ws\<rparr>)"
    by (simp add: addVaultToWorkspace_absent)
  from a f show "trace (snd (addVaultToWorkspace E v h)) = trace h @
        [WriteCodeWorkspaceSettings (ws\<lparr>folders := toWorkspaceFolder E v # folders ws\<rparr>),
         AddToGitignore (fsPath v) (wsRoot E) True,
         EnsureDir (pathJoin E [wsRoot E, fsPath v]),
         AddToGitignore ''.dendron.cache.*'' (pathJoin E [wsRoot E, fsPath v]) False]"
    by (simp add: addVaultToWorkspace_absent)
next
  assume p: "folder_path (toWorkspaceFolder E v) = getRelPath E v"
  show "codeWorkspace (snd (await (addVaultToWorkspace E v h) (\<lambda>_. addVaultToWorkspace E v)))
        = codeWorkspace (snd (addVaultToWorkspace E v h))"
  proof (cases "wsType E = NATIVE")
    case True
    then show ?thesis by (simp add: addVaultToWorkspace_def)
  next
    case nat: False
    show ?thesis
    proof (cases "codeWorkspace h")
      case None
      with nat show ?thesis by (simp add: addVaultToWorkspace_def)
    next
      case (Some ws0)
      show ?thesis
      proof (cases "find (\<lambda>ent. folder_path ent = getRelPath E v) (folders ws0) = None")
        case True
        let ?ws1 = "ws0\<lparr>folders := toWorkspaceFolder E v # folders ws0\<rparr>"
        have "find (\<lambda>ent. folder_path ent = getRelPath E v) (folders ?ws1) \<noteq> None"
          using p by simp
        with nat Some True show ?thesis
          by (simp add: addVaultToWorkspace_absent addVaultToWorkspace_present[where ws = ?ws1])
      next
        case False
        with nat Some show ?thesis
          by (simp add: addVaultToWorkspace_present[where ws = ws0])
      qed
    qed
  qed
qed


theorem addVaultToWorkspace_idempotent_witness:
  "codeWorkspace (snd (addVaultToWorkspace example_env
       \<lparr>fsPath = ''notes'', vault_name = None, selfContained = None\<rparr> example_host))
     = codeWorkspace example_host \<and>
   codeWorkspace (snd (addVaultToWorkspace example_env example_vault example_host))
     = Some \<lparr>folders = [\<lparr>folder_path = ''vault2'', folder_name = None\<rparr>,
                        \<lparr>folder_path = ''notes'', folder_name = None\<rparr>], settings = ''{}''\<rparr> \<and>
   codeWorkspace (snd (await (addVaultToWorkspace example_env example_vault example_host)
                      (\<lambda>_. addVaultToWorkspace example_env example_vault)))
     = Some \<lparr>folders = [\<lparr>folder_path = ''vault2'', folder_name = None\<rparr>,
                        \<lparr>folder_path = ''notes'', folder_name = None\<rparr>], settings = ''{}''\<rparr>"
proof -
  let ?ws = "\<lparr>folders = [\<lparr>folder_path = ''notes'', folder_name = None\<rparr>], settings = ''{}''\<rparr>"
  let ?old = "\<lparr>fsPath = ''notes'', vault_name = None, selfContained = None\<rparr>"
  have h1: "wsType example_env \<noteq> NATIVE \<and> codeWorkspace example_host = Some ?ws \<and>
      (\<exists>ent\<in>set (folders ?ws). folder_path ent = getRelPath example_env ?old)"
    by (simp add: example_env_def example_host_def)
  have h2: "wsType example_env \<noteq> NATIVE \<and> codeWorkspace example_host = Some ?ws \<and>
      \<not> (\<exists>ent\<in>set (folders ?ws). folder_path ent = getRelPath example_env example_vault)"
    by (simp add: example_env_def example_host_def example_vault_def)
  have h3: "folder_path (toWorkspaceFolder example_env example_vault)
      = getRelPath example_env example_vault"
    by (simp add: example_env_def)
  note a = addVaultToWorkspace_idempotent[of example_env example_host ?ws ?old,
      THEN conjunct1, rule_format, OF h1]
  note b = addVaultToWorkspace_idempotent[of example_env example_host ?ws example_vault,
      THEN conjunct2, THEN conjunct1, rule_format, OF h2]
  note c = addVaultToWorkspace_idempotent[of example_env example_host ?ws example_vault,
      THEN conjunct2, THEN conjunct2, rule_format, OF h3]
  from a b c show ?thesis
    by (simp add: example_env_def example_host_def example_vault_def)
qed



subsection \<open>Results and traces of the vault-add steps\<close>


lemma await_Returned_elim:
  assumes "await p k = (Returned x, h')"
  obtains a h1 where "p = (Returned a, h1)" "k a h1 = (Returned x, h')"
  using assms by (cases p; cases "fst p") (auto simp: await_def)

lemma createdVaults_append: "createdVaults (xs @ ys) = createdVaults xs @ createdVaults ys"
  by (induction xs rule: createdVaults.induct) auto

lemma createdVaults_patches: "list_all isPatch evs \<Longrightarrow> createdVaults evs = []"
  by (induction evs rule: createdVaults.induct) auto

lemma addVaultToWorkspace_trace:
  "\<exists>evs. trace (snd (addVaultToWorkspace E v h)) = trace h @ evs \<and> list_all isPatch evs"
  by (auto simp: addVaultToWorkspace_def Let_def split: option.splits)

lemma addVaultToWorkspace_Threw:
  "addVaultToWorkspace E v h = (Threw e, h') \<Longrightarrow> e = noCodeWorkspaceError \<and> h' = h"
  by (auto simp: addVaultToWorkspace_def Let_def split: option.splits if_splits)

lemma addVaultToWorkspace_not_Pending: "fst (addVaultToWorkspace E v h) \<noteq> Pending"
  by (auto simp: addVaultToWorkspace_def Let_def split: option.splits if_splits)

lemma addVaultToWorkspace_Returned_trace:
  "addVaultToWorkspace E v h = (Returned a, h') \<Longrightarrow>
     \<exists>evs. trace h' = trace h @ evs \<and> list_all isPatch evs \<and>
           (wsType E \<noteq> NATIVE \<longrightarrow> gitignored E v \<in> set evs)"
  by (auto simp: addVaultToWorkspace_def Let_def gitignored_def split: option.splits if_splits)

lemma createVaults_trace:
  "createVaults E vs h = (Returned u, h') \<Longrightarrow>
     \<exists>evs. trace h' = trace h @ evs \<and> list_all (\<lambda>e. isRegistration e \<or> isPatch e) evs \<and>
           createdVaults evs = vs \<and>
           (wsType E \<noteq> NATIVE \<longrightarrow> (\<forall>v\<in>set vs. gitignored E v \<in> set evs))"
proof (induction vs arbitrary: h)
  case Nil
  then show ?case by simp
next
  case (Cons v vs)
  from Cons.prems obtain a h1 where
    s1: "addVaultToWorkspace E v (emit (CreateVault v) h) = (Returned a, h1)" and
    s2: "createVaults E vs h1 = (Returned u, h')"
    by (auto elim: await_Returned_elim)
  from addVaultToWorkspace_Returned_trace[OF s1]
  obtain p where p: "trace h1 = trace h @ CreateVault v # p" "list_all isPatch p"
      "wsType E \<noteq> NATIVE \<longrightarrow> gitignored E v \<in> set p"
    by auto
  from Cons.IH[OF s2] obtain evs where
    evs: "trace h' = trace h1 @ evs" "list_all (\<lambda>e. isRegistration e \<or> isPatch e) evs"
      "createdVaults evs = vs"
      "wsType E \<noteq> NATIVE \<longrightarrow> (\<forall>v\<in>set vs. gitignored E v \<in> set evs)"
    by auto
  have "list_all (\<lambda>e. isRegistration e \<or> isPatch e) p"
    using p(2) by (induction p) auto
  with p evs show ?case
    by (intro exI[of _ "CreateVault v # p @ evs"])
       (auto simp: createdVaults_append createdVaults_patches)
qed

lemma handleRemoteRepo_Returned:
  assumes "handleRemoteRepo E opts h = (Returned (vaults, workspace), h')"
  shows "vaults = applyVaultName opts
           (fst (getVaultsFromRepo E (pathJoin E [wsRoot E, opts_path opts]) (wsRoot E)
                  (opts_pathRemote opts)))"
    and "workspace = snd (getVaultsFromRepo E (pathJoin E [wsRoot E, opts_path opts]) (wsRoot E)
                  (opts_pathRemote opts))"
  using assms
  by (auto simp: handleRemoteRepo_def Let_def split: prod.splits option.splits
           elim!: await_Returned_elim)

text \<open>
  C8. In \<^verbatim>\<open>handleRemoteRepo\<close> the name given by the user replaces the name of the
  discovered vault exactly when the repository yields one vault and the name is a
  non-empty string; with another number of vaults, or with no name (undefined or the
  empty string), the vaults are returned as they were discovered.
\<close>

theorem handleRemoteRepo_vault_name:
  assumes "handleRemoteRepo E opts h = (Returned (vaults, workspace), h')"
    and "discovered = fst (getVaultsFromRepo E (pathJoin E [wsRoot E, opts_path opts]) (wsRoot E)
                  (opts_pathRemote opts))"
  shows "(length discovered = 1 \<and> truthy (opts_name opts) \<longrightarrow>
            vaults = [(discovered ! 0)\<lparr>vault_name := opts_name opts\<rparr>]) \<and>
         (length discovered \<noteq> 1 \<or> \<not> truthy (opts_name opts) \<longrightarrow> vaults = discovered)"
proof -
  have v: "vaults = applyVaultName opts discovered"
    using handleRemoteRepo_Returned(1)[OF assms(1)] assms(2) by simp
  show ?thesis
  proof (intro conjI impI)
    assume c: "length discovered = 1 \<and> truthy (opts_name opts)"
    then obtain d where "discovered = [d]"
      by (cases discovered) auto
    with c v show "vaults = [(discovered ! 0)\<lparr>vault_name := opts_name opts\<rparr>]"
      by (simp add: applyVaultName_def)
  next
    assume "length discovered \<noteq> 1 \<or> \<not> truthy (opts_name opts)"
    with v show "vaults = discovered"
      by (auto simp: applyVaultName_def)
  qed
qed


theorem handleRemoteRepo_vault_name_witness:
  "fst (handleRemoteRepo example_env example_remote_opts example_host)
     = Returned ([\<lparr>fsPath = ''repo'', vault_name = Some ''wiki'', selfContained = None\<rparr>], None) \<and>
   fst (handleRemoteRepo example_env (example_remote_opts\<lparr>opts_name := Some []\<rparr>) example_host)
     = Returned ([\<lparr>fsPath = ''repo'', vault_name = None, selfContained = None\<rparr>], None)"
proof -
  let ?d = "[\<lparr>fsPath = ''repo'', vault_name = None, selfContained = None\<rparr>]"
  let ?o2 = "example_remote_opts\<lparr>opts_name := Some []\<rparr>"
  obtain vs1 w1 h1 where r1: "handleRemoteRepo example_env example_remote_opts example_host
      = (Returned (vs1, w1), h1)"
    by (simp add: handleRemoteRepo_def example_env_def example_remote_opts_def example_host_def
          addVaultToWorkspace_def applyVaultName_def truthy_def Let_def)
  obtain vs2 w2 h2 where r2: "handleRemoteRepo example_env ?o2 example_host
      = (Returned (vs2, w2), h2)"
    by (simp add: handleRemoteRepo_def example_env_def example_remote_opts_def example_host_def
          addVaultToWorkspace_def applyVaultName_def truthy_def Let_def)
  have d1: "?d = fst (getVaultsFromRepo example_env
      (pathJoin example_env [wsRoot example_env, opts_path example_remote_opts])
      (wsRoot example_env) (opts_pathRemote example_remote_opts))"
    by (simp add: example_env_def)
  have d2: "?d = fst (getVaultsFromRepo example_env
      (pathJoin example_env [wsRoot example_env, opts_path ?o2])
      (wsRoot example_env) (opts_pathRemote ?o2))"
    by (simp add: example_env_def)
  have c1: "length ?d = 1 \<and> truthy (opts_name example_remote_opts)"
    by (simp add: example_remote_opts_def truthy_def)
  have c2: "length ?d \<noteq> 1 \<or> \<not> truthy (opts_name ?o2)"
    by (simp add: truthy_def)
  note a = handleRemoteRepo_vault_name[OF r1 d1, THEN conjunct1, rule_format, OF c1]
  note b = handleRemoteRepo_vault_name[OF r2 d2, THEN conjunct2, rule_format, OF c2]
  have w: "w1 = None" "w2 = None"
    using handleRemoteRepo_Returned(2)[OF r1] handleRemoteRepo_Returned(2)[OF r2]
    by (simp_all add: example_env_def)
  from a b w r1 r2 show ?thesis
    by (simp add: example_remote_opts_def)
qed

subsection \<open>The guards of the rename-header command\<close>

text \<open>
  C10. \<^verbatim>\<open>execute\<close> of the rename-header command returns \<^verbatim>\<open>undefined\<close> when the new header
  or the old header is undefined, when there is no active text editor, or when the
  document of the editor is not a note; the only call it has made is the log entry: the
  document is not edited, nothing is saved and \<^verbatim>\<open>engine.renameNote\<close> is not called.
\<close>

theorem RenameHeader_execute_guard:
  assumes "newHeaderOf opts = None \<or> oldHeaderOf opts = None \<or> activeTextEditor h = None \<or>
           (\<exists>editor. activeTextEditor h = Some editor \<and>
              getNoteFromDocument E (document editor) = None)"
  shows "RenameHeader_execute E opts h = (Returned None, emit (LoggerInfo ''enter'') h) \<and>
         activeTextEditor (snd (RenameHeader_execute E opts h)) = activeTextEditor h \<and>
         disk (snd (RenameHeader_execute E opts h)) = disk h \<and>
         newEvents h (snd (RenameHeader_execute E opts h)) = [LoggerInfo ''enter'']"
proof -
  have "RenameHeader_execute E opts h = (Returned None, emit (LoggerInfo ''enter'') h)"
    using assms by (auto simp: RenameHeader_execute_def Let_def split: option.splits)
  then show ?thesis by (simp add: newEvents_def)
qed

theorem RenameHeader_execute_guard_witness:
  "RenameHeader_execute example_rename_env
      (Some \<lparr>oldHeader = None, newHeader = Some ''New header'', opt_source = None, opt_note = None\<rparr>)
      (example_host\<lparr>activeTextEditor := Some example_editor\<rparr>)
    = (Returned None, emit (LoggerInfo ''enter'') (example_host\<lparr>activeTextEditor := Some example_editor\<rparr>)) \<and>
   newEvents (example_host\<lparr>activeTextEditor := Some example_editor\<rparr>)
     (snd (RenameHeader_execute example_rename_env
      (Some \<lparr>oldHeader = None, newHeader = Some ''New header'', opt_source = None, opt_note = None\<rparr>)
      (example_host\<lparr>activeTextEditor := Some example_editor\<rparr>))) = [LoggerInfo ''enter'']"
proof -
  let ?o = "Some \<lparr>oldHeader = None, newHeader = Some ''New header'', opt_source = None, opt_note = None\<rparr>"
  let ?h = "example_host\<lparr>activeTextEditor := Some example_editor\<rparr>"
  have g: "newHeaderOf ?o = None \<or> oldHeaderOf ?o = None \<or> activeTextEditor ?h = None \<or>
           (\<exists>editor. activeTextEditor ?h = Some editor \<and>
              getNoteFromDocument example_rename_env (document editor) = None)"
    by (simp add: oldHeaderOf_def)
  from RenameHeader_execute_guard[OF g] show ?thesis by (simp add: newEvents_def)
qed



subsection \<open>Prompts, registration and patches of the vault-add command\<close>


lemma promptsOnly_iff:
  "promptsOnly h h' =
     ((\<exists>evs. trace h' = trace h @ evs \<and> list_all isPrompt evs) \<and>
      codeWorkspace h' = codeWorkspace h \<and> activeTextEditor h' = activeTextEditor h \<and>
      disk h' = disk h)"
proof -
  have "(take (length (trace h)) (trace h') = trace h \<and> list_all isPrompt (newEvents h h'))
      = (\<exists>evs. trace h' = trace h @ evs \<and> list_all isPrompt evs)"
  proof
    assume a: "take (length (trace h)) (trace h') = trace h \<and> list_all isPrompt (newEvents h h')"
    then have "trace h' = trace h @ newEvents h h'"
      unfolding newEvents_def by (metis append_take_drop_id)
    with a show "\<exists>evs. trace h' = trace h @ evs \<and> list_all isPrompt evs" by blast
  next
    assume "\<exists>evs. trace h' = trace h @ evs \<and> list_all isPrompt evs"
    then show "take (length (trace h)) (trace h') = trace h \<and> list_all isPrompt (newEvents h h')"
      by (auto simp: newEvents_def)
  qed
  then show ?thesis by (auto simp: promptsOnly_def)
qed

lemma promptsOnly_refl [simp]: "promptsOnly h h"
  by (simp add: promptsOnly_iff)

lemma promptsOnly_emit: "isPrompt e \<Longrightarrow> promptsOnly h h1 \<Longrightarrow> promptsOnly h (emit e h1)"
  by (auto simp: promptsOnly_iff)

lemma promptsOnly_accepts: "promptsOnly h h1 \<Longrightarrow> promptsOnly h (h1\<lparr>accepts := a\<rparr>)"
  by (auto simp: promptsOnly_iff)

lemma showInputBox_result: "fst (showInputBox p i h) = nextInput h"
  by (simp add: showInputBox_def nextInput_def split: list.splits)

lemma showInputBox_host:
  "snd (showInputBox p i h) = emit (ShowInputBox p i) (h\<lparr>inputBox := tl (inputBox h)\<rparr>)"
  by (simp add: showInputBox_def emit_def split: list.splits)

lemma showInputBox_eq:
  "showInputBox p i h = (nextInput h, emit (ShowInputBox p i) (h\<lparr>inputBox := tl (inputBox h)\<rparr>))"
  using showInputBox_result[of p i h] showInputBox_host[of p i h] by (simp add: prod_eq_iff)

lemma promptsOnly_inputBox: "promptsOnly h h1 \<Longrightarrow> promptsOnly h (h1\<lparr>inputBox := a\<rparr>)"
  by (auto simp: promptsOnly_iff)

lemma nextInput_emit [simp]: "nextInput (emit e h) = nextInput h"
  by (simp add: nextInput_def)

lemma nextInput_accepts [simp]: "nextInput (h\<lparr>accepts := a\<rparr>) = nextInput h"
  by (simp add: nextInput_def)

lemma onDidAccept_promptsOnly:
  "promptsOnly h0 h \<Longrightarrow> promptsOnly h0 (snd (onDidAccept E t as h))"
proof (induction as arbitrary: h)
  case Nil
  then show ?case by (simp add: promptsOnly_accepts)
next
  case (Cons a as)
  obtain val selected where a: "a = (val, selected)" by (cases a)
  show ?case
  proof (cases "label selected = ''custom'' \<and> isInputEmpty (Some val)")
    case True
    with a Cons show ?thesis by (simp add: promptsOnly_emit)
  next
    case False
    with a Cons.prems show ?thesis
      by (auto simp: Let_def showInputBox_eq promptsOnly_emit promptsOnly_inputBox
            promptsOnly_accepts split: option.splits)
  qed
qed

lemma onDidAccept_not_Threw: "fst (onDidAccept E t as h) \<noteq> Threw e"
proof (induction as arbitrary: h)
  case Nil
  then show ?case by simp
next
  case (Cons a as)
  obtain val selected where a: "a = (val, selected)" by (cases a)
  show ?case
  proof (cases "label selected = ''custom'' \<and> isInputEmpty (Some val)")
    case True
    with a Cons show ?thesis by simp
  next
    case False
    with a show ?thesis
      by (auto simp: Let_def showInputBox_eq split: option.splits)
  qed
qed

lemma gatherVaultStandard_promptsOnly:
  "promptsOnly h0 h \<Longrightarrow> promptsOnly h0 (snd (gatherVaultStandard E t h))"
  by (auto simp: gatherVaultStandard_def Let_def showInputBox_eq promptsOnly_emit
        promptsOnly_inputBox onDidAccept_promptsOnly split: option.splits)

lemma gatherVaultStandard_not_Threw: "fst (gatherVaultStandard E t h) \<noteq> Threw e"
  by (auto simp: gatherVaultStandard_def Let_def showInputBox_eq onDidAccept_not_Threw
        split: option.splits)

lemma gatherVaultSelfContained_promptsOnly:
  "promptsOnly h0 h \<Longrightarrow> promptsOnly h0 (snd (gatherVaultSelfContained E t h))"
  by (auto simp: gatherVaultSelfContained_def Let_def showInputBox_eq promptsOnly_emit
        promptsOnly_inputBox split: option.splits)

lemma gatherVaultSelfContained_Threw:
  "fst (gatherVaultSelfContained E t h) = Threw e \<Longrightarrow>
     \<exists>n. nextInput h = Some n \<and> n \<noteq> [] \<and> vaultNameTaken E n \<and> e = vaultNameTakenError n"
  by (auto simp: gatherVaultSelfContained_def Let_def showInputBox_eq isInputEmpty_def
        split: option.splits if_splits)

lemma gatherVaultSelfContained_taken:
  "nextInput h = Some n \<Longrightarrow> n \<noteq> [] \<Longrightarrow> vaultNameTaken E n \<Longrightarrow>
     gatherVaultSelfContained E t h =
       (Threw (vaultNameTakenError n),
        emit (ShowInputBox ''Name for the new vault'' None) (h\<lparr>inputBox := tl (inputBox h)\<rparr>))"
  by (auto simp: gatherVaultSelfContained_def Let_def showInputBox_eq isInputEmpty_def)

lemma VaultAdd_gatherInputs_promptsOnly:
  "promptsOnly h (snd (VaultAdd_gatherInputs E h))"
  by (auto simp: VaultAdd_gatherInputs_def Let_def promptsOnly_emit
        gatherVaultStandard_promptsOnly gatherVaultSelfContained_promptsOnly split: option.splits)

lemma VaultAdd_gatherInputs_Threw:
  "fst (VaultAdd_gatherInputs E h) = Threw e \<Longrightarrow>
     \<exists>n. nextInput h = Some n \<and> n \<noteq> [] \<and> vaultNameTaken E n \<and> e = vaultNameTakenError n"
  using gatherVaultSelfContained_Threw[of E _ "emit (ShowQuickPick [''local'', ''remote'']) h" e]
  by (auto simp: VaultAdd_gatherInputs_def Let_def gatherVaultStandard_not_Threw
        split: option.splits if_splits)


lemma await_elim:
  assumes "await p k = (r, h')"
  obtains (ok) a h1 where "p = (Returned a, h1)" "k a h1 = (r, h')"
    | (threw) e where "p = (Threw e, h')" "r = Threw e"
    | (pending) "p = (Pending, h')" "r = Pending"
  using assms by (cases p; cases "fst p") (auto simp: await_def)

lemma list_all_weaken: "list_all P xs \<Longrightarrow> (\<And>x. P x \<Longrightarrow> Q x) \<Longrightarrow> list_all Q xs"
  by (induction xs) auto

lemma addVaultToWorkspace_any:
  "addVaultToWorkspace E v h = (r, h') \<Longrightarrow>
     \<exists>evs. trace h' = trace h @ evs \<and> list_all isPatch evs"
  using addVaultToWorkspace_trace[of E v h] by simp

lemma createVaults_any:
  "createVaults E vs h = (r, h') \<Longrightarrow>
     (\<exists>evs. trace h' = trace h @ evs \<and> list_all (\<lambda>e. isRegistration e \<or> isPatch e) evs) \<and>
     r \<noteq> Pending \<and> (\<forall>e. r = Threw e \<longrightarrow> e = noCodeWorkspaceError)"
proof (induction vs arbitrary: h)
  case Nil
  then show ?case by auto
next
  case (Cons v vs)
  from Cons.prems have
    "await (addVaultToWorkspace E v (emit (CreateVault v) h)) (\<lambda>_ h1. createVaults E vs h1) = (r, h')"
    by simp
  then show ?case
  proof (cases rule: await_elim)
    case (ok a h1)
    from addVaultToWorkspace_any[OF ok(1)] obtain p where
      p: "trace h1 = trace h @ CreateVault v # p" "list_all isPatch p" by auto
    from Cons.IH[OF ok(2)] obtain evs where
      evs: "trace h' = trace h1 @ evs" "list_all (\<lambda>e. isRegistration e \<or> isPatch e) evs"
      and r: "r \<noteq> Pending" "\<forall>e. r = Threw e \<longrightarrow> e = noCodeWorkspaceError" by auto
    have "list_all (\<lambda>e. isRegistration e \<or> isPatch e) p"
      using p(2) by (rule list_all_weaken) simp
    with p evs have "trace h' = trace h @ (CreateVault v # p @ evs) \<and>
        list_all (\<lambda>e. isRegistration e \<or> isPatch e) (CreateVault v # p @ evs)" by simp
    with r show ?thesis by blast
  next
    case (threw e)
    from addVaultToWorkspace_Threw[OF threw(1)] threw(2)
    have "trace h' = trace h @ [CreateVault v]" "e = noCodeWorkspaceError" by auto
    with threw(2) show ?thesis by auto
  next
    case pending
    with addVaultToWorkspace_not_Pending[of E v "emit (CreateVault v) h"] show ?thesis by simp
  qed
qed

lemma addVaultsToWorkspace_any:
  "addVaultsToWorkspace E vs h = (r, h') \<Longrightarrow>
     (\<exists>evs. trace h' = trace h @ evs \<and> list_all isPatch evs) \<and>
     r \<noteq> Pending \<and> (\<forall>e. r = Threw e \<longrightarrow> e = noCodeWorkspaceError)"
proof (induction vs arbitrary: h)
  case Nil
  then show ?case by auto
next
  case (Cons v vs)
  from Cons.prems have
    "await (addVaultToWorkspace E v h) (\<lambda>_ h1. addVaultsToWorkspace E vs h1) = (r, h')"
    by simp
  then show ?case
  proof (cases rule: await_elim)
    case (ok a h1)
    from addVaultToWorkspace_any[OF ok(1)] obtain p where
      p: "trace h1 = trace h @ p" "list_all isPatch p" by auto
    from Cons.IH[OF ok(2)] obtain evs where
      evs: "trace h' = trace h1 @ evs" "list_all isPatch evs"
      and r: "r \<noteq> Pending" "\<forall>e. r = Threw e \<longrightarrow> e = noCodeWorkspaceError" by auto
    from p evs have "trace h' = trace h @ (p @ evs) \<and> list_all isPatch (p @ evs)" by simp
    with r show ?thesis by blast
  next
    case (threw e)
    from addVaultToWorkspace_Threw[OF threw(1)] threw(2) show ?thesis by auto
  next
    case pending
    with addVaultToWorkspace_not_Pending[of E v h] show ?thesis by simp
  qed
qed

lemma addWorkspaceToWorkspace_any:
  "addWorkspaceToWorkspace E ws h = (r, h') \<Longrightarrow>
     (\<exists>evs. trace h' = trace h @ evs \<and> list_all isPatch evs) \<and>
     r \<noteq> Pending \<and> (\<forall>e. r = Threw e \<longrightarrow> e = noCodeWorkspaceError)"
proof -
  assume "addWorkspaceToWorkspace E ws h = (r, h')"
  then have "await (addVaultsToWorkspace E (ws_vaults ws) h) (\<lambda>_ h1.
       let h2 = emit (AddToGitignore (ws_name ws) (wsRoot E) True) h1;
           workspaceDir = pathJoin E [wsRoot E, ws_name ws];
           h3 = emit (EnsureDir workspaceDir) h2;
           h4 = emit (AddToGitignore ''.dendron.cache.*'' workspaceDir False) h3
       in (Returned (), h4)) = (r, h')"
    by (simp add: addWorkspaceToWorkspace_def)
  then show ?thesis
  proof (cases rule: await_elim)
    case (ok a h1)
    from addVaultsToWorkspace_any[OF ok(1)] obtain p where
      p: "trace h1 = trace h @ p" "list_all isPatch p" by auto
    let ?q = "[AddToGitignore (ws_name ws) (wsRoot E) True,
               EnsureDir (pathJoin E [wsRoot E, ws_name ws]),
               AddToGitignore ''.dendron.cache.*'' (pathJoin E [wsRoot E, ws_name ws]) False]"
    from ok(2) p have "trace h' = trace h @ (p @ ?q) \<and> list_all isPatch (p @ ?q) \<and> r = Returned ()"
      by (auto simp: Let_def)
    then show ?thesis by blast
  next
    case (threw e)
    from addVaultsToWorkspace_any[OF threw(1)] threw(2) show ?thesis by auto
  next
    case pending
    from addVaultsToWorkspace_any[OF pending(1)] show ?thesis by simp
  qed
qed

lemma handleRemoteRepo_any:
  assumes "handleRemoteRepo E opts h = (r, h')"
  shows "(\<exists>evs. trace h' = trace h @ remoteSteps E opts @ evs \<and>
            list_all (\<lambda>e. isRegistration e \<or> isPatch e) evs \<and>
            (\<forall>vaults. r = Returned (vaults, None) \<longrightarrow> createdVaults evs = vaults \<and>
               (wsType E \<noteq> NATIVE \<longrightarrow> (\<forall>v\<in>set vaults. gitignored E v \<in> set evs))) \<and>
            (\<forall>vaults ws. r = Returned (vaults, Some ws) \<longrightarrow>
               (\<exists>rest. evs = AddWorkspace ws # rest \<and> list_all isPatch rest))) \<and>
         r \<noteq> Pending \<and> (\<forall>e. r = Threw e \<longrightarrow> e = noCodeWorkspaceError)"
proof -
  let ?g = "getVaultsFromRepo E (pathJoin E [wsRoot E, opts_path opts]) (wsRoot E) (opts_pathRemote opts)"
  let ?h4 = "emit (ProgressReport ''adding vault'')
              (emit (GetVaultsFromRepo (pathJoin E [wsRoot E, opts_path opts]) (wsRoot E) (opts_pathRemote opts))
                (emit (GitClone (opts_pathRemote opts) (opts_path opts))
                  (emit (ProgressReport ''cloning repo'') h)))"
  have t4: "trace ?h4 = trace h @ remoteSteps E opts" by (simp add: remoteSteps_def)
  show ?thesis
  proof (cases "snd ?g")
    case None
    with assms have "await (createVaults E (applyVaultName opts (fst ?g)) ?h4)
        (\<lambda>_ h5. (Returned (applyVaultName opts (fst ?g), None), h5)) = (r, h')"
      by (simp add: handleRemoteRepo_def Let_def split: prod.splits)
    then show ?thesis
    proof (cases rule: await_elim)
      case (ok a h1)
      from createVaults_trace[of E _ ?h4 a h1] ok(1) obtain evs where
        "trace h1 = trace ?h4 @ evs" "list_all (\<lambda>e. isRegistration e \<or> isPatch e) evs"
        "createdVaults evs = applyVaultName opts (fst ?g)"
        "wsType E \<noteq> NATIVE \<longrightarrow>
           (\<forall>v\<in>set (applyVaultName opts (fst ?g)). gitignored E v \<in> set evs)" by blast
      with ok(2) t4 have "trace h' = trace h @ remoteSteps E opts @ evs \<and>
          list_all (\<lambda>e. isRegistration e \<or> isPatch e) evs \<and>
          r = Returned (applyVaultName opts (fst ?g), None) \<and>
          createdVaults evs = applyVaultName opts (fst ?g) \<and>
          (wsType E \<noteq> NATIVE \<longrightarrow>
             (\<forall>v\<in>set (applyVaultName opts (fst ?g)). gitignored E v \<in> set evs))" by auto
      then show ?thesis by auto
    next
      case (threw e)
      from createVaults_any[OF threw(1)] obtain evs where
        "trace h' = trace ?h4 @ evs" "list_all (\<lambda>e. isRegistration e \<or> isPatch e) evs"
        and e: "e = noCodeWorkspaceError" by auto
      with t4 have "trace h' = trace h @ remoteSteps E opts @ evs \<and>
          list_all (\<lambda>e. isRegistration e \<or> isPatch e) evs" by simp
      with threw(2) e show ?thesis by blast
    next
      case pending
      from createVaults_any[OF pending(1)] show ?thesis by simp
    qed
  next
    case (Some ws)
    with assms have "await (addWorkspaceToWorkspace E ws (emit (AddWorkspace ws) ?h4))
        (\<lambda>_ h5. (Returned (applyVaultName opts (fst ?g), Some ws), h5)) = (r, h')"
      by (simp add: handleRemoteRepo_def Let_def split: prod.splits)
    then show ?thesis
    proof (cases rule: await_elim)
      case (ok a h1)
      from addWorkspaceToWorkspace_any[OF ok(1)] obtain p where
        p: "trace h1 = trace ?h4 @ AddWorkspace ws # p" "list_all isPatch p" by auto
      have "list_all (\<lambda>e. isRegistration e \<or> isPatch e) p"
        using p(2) by (rule list_all_weaken) simp
      with ok(2) p t4 have "trace h' = trace h @ remoteSteps E opts @ (AddWorkspace ws # p) \<and>
          list_all (\<lambda>e. isRegistration e \<or> isPatch e) (AddWorkspace ws # p) \<and>
          r = Returned (applyVaultName opts (fst ?g), Some ws) \<and> list_all isPatch p" by auto
      then show ?thesis by auto
    next
      case (threw e)
      from addWorkspaceToWorkspace_any[OF threw(1)] obtain p where
        p: "trace h' = trace ?h4 @ AddWorkspace ws # p" "list_all isPatch p"
        and e: "e = noCodeWorkspaceError" by auto
      have "list_all (\<lambda>e. isRegistration e \<or> isPatch e) p"
        using p(2) by (rule list_all_weaken) simp
      with p t4 have "trace h' = trace h @ remoteSteps E opts @ (AddWorkspace ws # p) \<and>
          list_all (\<lambda>e. isRegistration e \<or> isPatch e) (AddWorkspace ws # p)" by simp
      with threw(2) e show ?thesis by blast
    next
      case pending
      from addWorkspaceToWorkspace_any[OF pending(1)] show ?thesis by simp
    qed
  qed
qed


lemma finishAdding_eq:
  "finishAdding vaults h =
     (Returned \<lparr>out_vaults = vaults\<rparr>,
      emit (ExecuteCommand ''workbench.action.reloadWindow'')
        (emit (ShowInformationMessage ''finished adding vault'') h))"
  by (simp add: finishAdding_def Let_def)

lemma VaultAdd_execute_local:
  assumes "opts_type opts \<noteq> Remote"
  shows "VaultAdd_execute E opts h =
     await (addVaultToWorkspace E (localVault E opts)
              (emit (registerLocal E opts) (emit (LoggerInfo ''enter'') h)))
       (\<lambda>_ h3. finishAdding [localVault E opts] h3)"
  using assms by (simp add: VaultAdd_execute_def Let_def registerLocal_def)

lemma VaultAdd_execute_remote:
  assumes "opts_type opts = Remote"
  shows "VaultAdd_execute E opts h =
     await (handleRemoteRepo E opts (emit (LoggerInfo ''enter'') h))
       (\<lambda>(vaults, workspace) h2. finishAdding vaults h2)"
  using assms by (simp add: VaultAdd_execute_def Let_def)

lemma isWork_registerLocal [simp]: "isWork (registerLocal E opts)"
  by (simp add: isWork_def registerLocal_def)

lemma list_all_isWork_remoteSteps [simp]: "list_all isWork (remoteSteps E opts)"
  by (simp add: isWork_def remoteSteps_def)

lemma VaultAdd_execute_any:
  assumes "VaultAdd_execute E opts h = (r, h')"
  shows "r \<noteq> Pending"
    and "r = Threw e \<Longrightarrow> e = noCodeWorkspaceError \<and>
           (\<exists>work. trace h' = trace h @ LoggerInfo ''enter'' # work \<and> list_all isWork work)"
    and "r = Returned out \<Longrightarrow>
           \<exists>work. trace h' = trace h @ LoggerInfo ''enter'' # work
                      @ [ShowInformationMessage ''finished adding vault'', reloadWindow] \<and>
              list_all isWork work \<and>
              (opts_type opts = Remote \<longrightarrow>
                 (\<exists>steps. work = remoteSteps E opts @ steps \<and>
                    list_all (\<lambda>e. isRegistration e \<or> isPatch e) steps \<and>
                    ((createdVaults steps = out_vaults out \<and>
                      (wsType E \<noteq> NATIVE \<longrightarrow>
                         (\<forall>v\<in>set (out_vaults out). gitignored E v \<in> set steps))) \<or>
                     (\<exists>ws rest. steps = AddWorkspace ws # rest \<and> list_all isPatch rest)))) \<and>
              (opts_type opts \<noteq> Remote \<longrightarrow>
                 (\<exists>patches. work = registerLocal E opts # patches \<and> list_all isPatch patches \<and>
                    out_vaults out = [localVault E opts] \<and>
                    (wsType E \<noteq> NATIVE \<longrightarrow> gitignored E (localVault E opts) \<in> set patches)))"
proof -
  have "r \<noteq> Pending \<and>
    (r = Threw e \<longrightarrow> e = noCodeWorkspaceError \<and>
           (\<exists>work. trace h' = trace h @ LoggerInfo ''enter'' # work \<and> list_all isWork work)) \<and>
    (r = Returned out \<longrightarrow>
           (\<exists>work. trace h' = trace h @ LoggerInfo ''enter'' # work
                      @ [ShowInformationMessage ''finished adding vault'', reloadWindow] \<and>
              list_all isWork work \<and>
              (opts_type opts = Remote \<longrightarrow>
                 (\<exists>steps. work = remoteSteps E opts @ steps \<and>
                    list_all (\<lambda>e. isRegistration e \<or> isPatch e) steps \<and>
                    ((createdVaults steps = out_vaults out \<and>
                      (wsType E \<noteq> NATIVE \<longrightarrow>
                         (\<forall>v\<in>set (out_vaults out). gitignored E v \<in> set steps))) \<or>
                     (\<exists>ws rest. steps = AddWorkspace ws # rest \<and> list_all isPatch rest)))) \<and>
              (opts_type opts \<noteq> Remote \<longrightarrow>
                 (\<exists>patches. work = registerLocal E opts # patches \<and> list_all isPatch patches \<and>
                    out_vaults out = [localVault E opts] \<and>
                    (wsType E \<noteq> NATIVE \<longrightarrow> gitignored E (localVault E opts) \<in> set patches)))))"
  proof (cases "opts_type opts = Remote")
    case False
    let ?h2 = "emit (registerLocal E opts) (emit (LoggerInfo ''enter'') h)"
    from assms False have "await (addVaultToWorkspace E (localVault E opts) ?h2)
        (\<lambda>_ h3. finishAdding [localVault E opts] h3) = (r, h')"
      by (simp add: VaultAdd_execute_local)
    then show ?thesis
    proof (cases rule: await_elim)
      case (ok a h1)
      from addVaultToWorkspace_Returned_trace[OF ok(1)] obtain p where
        p: "trace h1 = trace h @ LoggerInfo ''enter'' # registerLocal E opts # p" "list_all isPatch p"
        and gi: "wsType E \<noteq> NATIVE \<longrightarrow> gitignored E (localVault E opts) \<in> set p"
        by auto
      have "list_all isWork p"
        using p(2) by (rule list_all_weaken) (simp add: isWork_def)
      then have w: "list_all isWork (registerLocal E opts # p)" by simp
      from ok(2) p have r: "r = Returned \<lparr>out_vaults = [localVault E opts]\<rparr>"
        and t: "trace h' = trace h @ LoggerInfo ''enter'' # (registerLocal E opts # p)
                  @ [ShowInformationMessage ''finished adding vault'', reloadWindow]"
        by (auto simp: finishAdding_eq reloadWindow_def)
      from r t w p(2) gi False show ?thesis by auto
    next
      case (threw e')
      from addVaultToWorkspace_Threw[OF threw(1)] have
        "e' = noCodeWorkspaceError" "h' = ?h2" by auto
      then have "trace h' = trace h @ LoggerInfo ''enter'' # [registerLocal E opts] \<and>
          list_all isWork [registerLocal E opts]" by simp
      with threw(2) \<open>e' = noCodeWorkspaceError\<close> show ?thesis by blast
    next
      case pending
      with addVaultToWorkspace_not_Pending[of E "localVault E opts" ?h2] show ?thesis by simp
    qed
  next
    case True
    let ?h1 = "emit (LoggerInfo ''enter'') h"
    from assms True have "await (handleRemoteRepo E opts ?h1)
        (\<lambda>(vaults, workspace) h2. finishAdding vaults h2) = (r, h')"
      by (simp add: VaultAdd_execute_remote)
    then show ?thesis
    proof (cases rule: await_elim)
      case (ok a h1)
      obtain vaults workspace where a: "a = (vaults, workspace)" by (cases a)
      from handleRemoteRepo_any[OF ok(1)[unfolded a]] obtain steps where
        s: "trace h1 = trace ?h1 @ remoteSteps E opts @ steps"
           "list_all (\<lambda>e. isRegistration e \<or> isPatch e) steps"
           "\<forall>vs. Returned (vaults, workspace) = Returned (vs, None) \<longrightarrow> createdVaults steps = vs \<and>
               (wsType E \<noteq> NATIVE \<longrightarrow> (\<forall>v\<in>set vs. gitignored E v \<in> set steps))"
           "\<forall>vs ws. Returned (vaults, workspace) = Returned (vs, Some ws) \<longrightarrow>
               (\<exists>rest. steps = AddWorkspace ws # rest \<and> list_all isPatch rest)"
        by blast
      have c: "(createdVaults steps = vaults \<and>
            (wsType E \<noteq> NATIVE \<longrightarrow> (\<forall>v\<in>set vaults. gitignored E v \<in> set steps))) \<or>
          (\<exists>ws rest. steps = AddWorkspace ws # rest \<and> list_all isPatch rest)"
        using s(3,4) by (cases workspace) auto
      have "list_all isWork steps"
        using s(2) by (rule list_all_weaken) (auto simp: isWork_def)
      then have w: "list_all isWork (remoteSteps E opts @ steps)" by simp
      from ok(2) a s(1) have r: "r = Returned \<lparr>out_vaults = vaults\<rparr>"
        and t: "trace h' = trace h @ LoggerInfo ''enter'' # (remoteSteps E opts @ steps)
                  @ [ShowInformationMessage ''finished adding vault'', reloadWindow]"
        by (auto simp: finishAdding_eq reloadWindow_def)
      from r t w s(2) c True show ?thesis by auto
    next
      case (threw e')
      from handleRemoteRepo_any[OF threw(1)] obtain steps where
        s: "trace h' = trace ?h1 @ remoteSteps E opts @ steps"
           "list_all (\<lambda>e. isRegistration e \<or> isPatch e) steps"
        and e: "e' = noCodeWorkspaceError" by blast
      have "list_all isWork steps"
        using s(2) by (rule list_all_weaken) (auto simp: isWork_def)
      then have w: "list_all isWork (remoteSteps E opts @ steps)" by simp
      from s(1) have "trace h' = trace h @ LoggerInfo ''enter'' # (remoteSteps E opts @ steps)"
        by simp
      with w threw(2) e show ?thesis by blast
    next
      case pending
      from handleRemoteRepo_any[OF pending(1)] show ?thesis by simp
    qed
  qed
  then show "r \<noteq> Pending"
    and "r = Threw e \<Longrightarrow> e = noCodeWorkspaceError \<and>
           (\<exists>work. trace h' = trace h @ LoggerInfo ''enter'' # work \<and> list_all isWork work)"
    and "r = Returned out \<Longrightarrow>
           \<exists>work. trace h' = trace h @ LoggerInfo ''enter'' # work
                      @ [ShowInformationMessage ''finished adding vault'', reloadWindow] \<and>
              list_all isWork work \<and>
              (opts_type opts = Remote \<longrightarrow>
                 (\<exists>steps. work = remoteSteps E opts @ steps \<and>
                    list_all (\<lambda>e. isRegistration e \<or> isPatch e) steps \<and>
                    ((createdVaults steps = out_vaults out \<and>
                      (wsType E \<noteq> NATIVE \<longrightarrow>
                         (\<forall>v\<in>set (out_vaults out). gitignored E v \<in> set steps))) \<or>
                     (\<exists>ws rest. steps = AddWorkspace ws # rest \<and> list_all isPatch rest)))) \<and>
              (opts_type opts \<noteq> Remote \<longrightarrow>
                 (\<exists>patches. work = registerLocal E opts # patches \<and> list_all isPatch patches \<and>
                    out_vaults out = [localVault E opts] \<and>
                    (wsType E \<noteq> NATIVE \<longrightarrow> gitignored E (localVault E opts) \<in> set patches)))"
    by blast+
qed



lemma isPrompt_reload [simp]: "\<not> isPrompt reloadWindow" "\<not> isWork reloadWindow"
  by (simp_all add: reloadWindow_def isWork_def)

lemma list_all_not_mem: "list_all P xs \<Longrightarrow> \<not> P x \<Longrightarrow> x \<notin> set xs"
  by (auto simp: list_all_iff)







subsection \<open>Errors raised by the commands\<close>


lemma parseOldHeader_Threw:
  "fst (parseOldHeader R h) = Threw e \<Longrightarrow> e = selectHeaderError \<or> e = illegalLineError"
  by (auto simp: parseOldHeader_def lineAt_def Let_def split: option.splits if_splits list.splits)

lemma parseOldHeader_not_Pending: "fst (parseOldHeader R h) \<noteq> Pending"
  by (auto simp: parseOldHeader_def lineAt_def Let_def split: option.splits if_splits list.splits)

lemma RenameHeader_gatherInputs_Threw:
  assumes "fst (RenameHeader_gatherInputs R ropts h) = Threw e"
  shows "e = openNoteError \<or> e = selectHeaderError \<or> e = illegalLineError"
proof (cases "getActiveNote R (activeTextEditor h)")
  case None
  with assms show ?thesis by (simp add: RenameHeader_gatherInputs_def Let_def)
next
  case (Some n)
  show ?thesis
  proof (cases "oldHeaderOf ropts")
    case (Some oh)
    with assms \<open>getActiveNote R (activeTextEditor h) = Some n\<close> show ?thesis
      by (auto simp: RenameHeader_gatherInputs_def Let_def showInputBox_eq
            split: option.splits if_splits)
  next
    case None
    obtain r h1 where p: "parseOldHeader R h = (r, h1)" by (cases "parseOldHeader R h")
    show ?thesis
    proof (cases r)
      case (Returned oh)
      with assms p None \<open>getActiveNote R (activeTextEditor h) = Some n\<close> show ?thesis
        by (auto simp: RenameHeader_gatherInputs_def Let_def showInputBox_eq
              split: option.splits if_splits)
    next
      case (Threw e')
      with assms p None \<open>getActiveNote R (activeTextEditor h) = Some n\<close> have "e = e'"
        by (simp add: RenameHeader_gatherInputs_def Let_def)
      with parseOldHeader_Threw[of R h e'] p Threw show ?thesis by simp
    next
      case Pending
      with parseOldHeader_not_Pending[of R h] p show ?thesis by simp
    qed
  qed
qed

lemma RenameHeader_execute_not_Threw: "fst (RenameHeader_execute R ropts h) \<noteq> Threw e"
  by (auto simp: RenameHeader_execute_def Let_def split: option.splits)

lemma VaultAdd_execute_missing_file:
  assumes "wsType E \<noteq> NATIVE" "codeWorkspace h = None" "opts_type opts \<noteq> Remote"
  shows "VaultAdd_execute E opts h =
     (Threw noCodeWorkspaceError, emit (registerLocal E opts) (emit (LoggerInfo ''enter'') h))"
  using assms by (simp add: VaultAdd_execute_local addVaultToWorkspace_def)

text \<open>
  C7. The errors the two commands raise are \<^verbatim>\<open>DendronError\<close> values, a message with an
  optional status code, and they leave the command as they were raised. A name for a
  self-contained vault that a vault of the workspace config already has makes
  \<^verbatim>\<open>gatherVaultSelfContained\<close> throw, and the error goes through \<^verbatim>\<open>gatherInputs\<close> to the
  runner. A missing \<^verbatim>\<open>dendron.code-workspace\<close> makes \<^verbatim>\<open>addVaultToWorkspace\<close> throw with status
  \<^verbatim>\<open>INVALID_STATE\<close>, and \<^verbatim>\<open>execute\<close> ends with that error after the calls made so far: nothing
  is tried again and the window is not reloaded. These are the only errors
  \<^verbatim>\<open>gatherInputs\<close> and \<^verbatim>\<open>execute\<close> of the vault-add command end with. \<^verbatim>\<open>gatherInputs\<close> of the
  rename-header command throws when no note is open, and ends with no other error than
  that one, the one for a line without header, and the one of the editor for a line outside
  the document; its \<^verbatim>\<open>execute\<close> raises none.
\<close>

theorem errors_propagate:
  "(nextInput h = Some n \<and> n \<noteq> [] \<and> vaultNameTaken E n \<longrightarrow>
      fst (gatherVaultSelfContained E sourceType h) = Threw (vaultNameTakenError n) \<and>
      (quickPick h = Some sourceType \<and> enableSelfContainedVaults E \<longrightarrow>
         fst (VaultAdd_gatherInputs E h) = Threw (vaultNameTakenError n) \<and>
         fst (VaultAdd_run E h) = Threw (vaultNameTakenError n))) \<and>
   (wsType E \<noteq> NATIVE \<and> codeWorkspace h = None \<longrightarrow>
      addVaultToWorkspace E v h = (Threw noCodeWorkspaceError, h) \<and>
      (opts_type opts \<noteq> Remote \<longrightarrow>
         fst (VaultAdd_execute E opts h) = Threw noCodeWorkspaceError \<and>
         newEvents h (snd (VaultAdd_execute E opts h)) = [LoggerInfo ''enter'', registerLocal E opts])) \<and>
   (\<forall>e. fst (VaultAdd_gatherInputs E h) = Threw e \<longrightarrow> (\<exists>taken. e = vaultNameTakenError taken)) \<and>
   (\<forall>e. fst (VaultAdd_execute E opts h) = Threw e \<longrightarrow>
      e = noCodeWorkspaceError \<and> reloadWindow \<notin> set (newEvents h (snd (VaultAdd_execute E opts h)))) \<and>
   (getActiveNote R (activeTextEditor h) = None \<longrightarrow>
      RenameHeader_gatherInputs R ropts h = (Threw openNoteError, h)) \<and>
   (\<forall>e. fst (RenameHeader_gatherInputs R ropts h) = Threw e \<longrightarrow>
      e = openNoteError \<or> e = selectHeaderError \<or> e = illegalLineError) \<and>
   (\<forall>e. fst (RenameHeader_execute R ropts h) \<noteq> Threw e) \<and>
   vaultNameTakenError n = \<lparr>message = ''There is already a vault with the name '' @ n
                              @ '', please pick a different name.'', status = None\<rparr> \<and>
   noCodeWorkspaceError = \<lparr>message = ''no dendron.code-workspace found'',
                            status = Some INVALID_STATE\<rparr>"
proof (intro conjI impI allI)
  assume a: "nextInput h = Some n \<and> n \<noteq> [] \<and> vaultNameTaken E n"
  then show "fst (gatherVaultSelfContained E sourceType h) = Threw (vaultNameTakenError n)"
    by (simp add: gatherVaultSelfContained_taken)
  assume b: "quickPick h = Some sourceType \<and> enableSelfContainedVaults E"
  from a have "fst (gatherVaultSelfContained E sourceType (emit (ShowQuickPick [''local'', ''remote'']) h))
      = Threw (vaultNameTakenError n)"
    by (simp add: gatherVaultSelfContained_taken)
  with b show g: "fst (VaultAdd_gatherInputs E h) = Threw (vaultNameTakenError n)"
    by (simp add: VaultAdd_gatherInputs_def Let_def)
  then show "fst (VaultAdd_run E h) = Threw (vaultNameTakenError n)"
    by (cases "VaultAdd_gatherInputs E h") (simp add: VaultAdd_run_def)
next
  assume a: "wsType E \<noteq> NATIVE \<and> codeWorkspace h = None"
  then show "addVaultToWorkspace E v h = (Threw noCodeWorkspaceError, h)"
    by (simp add: addVaultToWorkspace_def)
  assume "opts_type opts \<noteq> Remote"
  with a have x: "VaultAdd_execute E opts h =
     (Threw noCodeWorkspaceError, emit (registerLocal E opts) (emit (LoggerInfo ''enter'') h))"
    by (simp add: VaultAdd_execute_missing_file)
  then show "fst (VaultAdd_execute E opts h) = Threw noCodeWorkspaceError" by simp
  from x show "newEvents h (snd (VaultAdd_execute E opts h)) = [LoggerInfo ''enter'', registerLocal E opts]"
    by (simp add: newEvents_def)
next
  fix e assume "fst (VaultAdd_gatherInputs E h) = Threw e"
  from VaultAdd_gatherInputs_Threw[OF this] show "\<exists>taken. e = vaultNameTakenError taken" by blast
next
  fix e assume t: "fst (VaultAdd_execute E opts h) = Threw e"
  then have x: "VaultAdd_execute E opts h = (Threw e, snd (VaultAdd_execute E opts h))"
    by (simp add: prod_eq_iff)
  from VaultAdd_execute_any(2)[OF x refl] show "e = noCodeWorkspaceError" by simp
  from VaultAdd_execute_any(2)[OF x refl] obtain work where
    w: "trace (snd (VaultAdd_execute E opts h)) = trace h @ LoggerInfo ''enter'' # work"
       "list_all isWork work" by blast
  from w(1) have "newEvents h (snd (VaultAdd_execute E opts h)) = LoggerInfo ''enter'' # work"
    by (simp add: newEvents_def)
  moreover have "reloadWindow \<notin> set work"
    using list_all_not_mem[OF w(2)] by simp
  ultimately show "reloadWindow \<notin> set (newEvents h (snd (VaultAdd_execute E opts h)))"
    by (simp add: reloadWindow_def)
next
  assume "getActiveNote R (activeTextEditor h) = None"
  then show "RenameHeader_gatherInputs R ropts h = (Threw openNoteError, h)"
    by (simp add: RenameHeader_gatherInputs_def Let_def)
next
  fix e assume "fst (RenameHeader_gatherInputs R ropts h) = Threw e"
  then show "e = openNoteError \<or> e = selectHeaderError \<or> e = illegalLineError"
    by (rule RenameHeader_gatherInputs_Threw)
next
  fix e show "fst (RenameHeader_execute R ropts h) \<noteq> Threw e"
    by (rule RenameHeader_execute_not_Threw)
next
  show "vaultNameTakenError n = \<lparr>message = ''There is already a vault with the name '' @ n
                              @ '', please pick a different name.'', status = None\<rparr>"
    by (simp add: vaultNameTakenError_def)
  show "noCodeWorkspaceError = \<lparr>message = ''no dendron.code-workspace found'',
                            status = Some INVALID_STATE\<rparr>"
    by (simp add: noCodeWorkspaceError_def)
qed


theorem errors_propagate_witness:
  "fst (VaultAdd_run (example_env\<lparr>enableSelfContainedVaults := True\<rparr>)
          (example_host\<lparr>quickPick := Some Local, inputBox := [Some ''notes'']\<rparr>))
     = Threw \<lparr>message = ''There is already a vault with the name notes, please pick a different name.'',
              status = None\<rparr> \<and>
   fst (VaultAdd_execute example_env (example_remote_opts\<lparr>opts_type := Local\<rparr>)
          (example_host\<lparr>codeWorkspace := None\<rparr>))
     = Threw \<lparr>message = ''no dendron.code-workspace found'', status = Some INVALID_STATE\<rparr> \<and>
   newEvents (example_host\<lparr>codeWorkspace := None\<rparr>)
     (snd (VaultAdd_execute example_env (example_remote_opts\<lparr>opts_type := Local\<rparr>)
          (example_host\<lparr>codeWorkspace := None\<rparr>)))
     = [LoggerInfo ''enter'',
        CreateVault \<lparr>fsPath = ''repo'', vault_name = Some ''wiki'', selfContained = None\<rparr>] \<and>
   reloadWindow \<notin> set (newEvents (example_host\<lparr>codeWorkspace := None\<rparr>)
     (snd (VaultAdd_execute example_env (example_remote_opts\<lparr>opts_type := Local\<rparr>)
          (example_host\<lparr>codeWorkspace := None\<rparr>)))) \<and>
   (\<exists>taken. vaultNameTakenError ''notes'' = vaultNameTakenError taken) \<and>
   RenameHeader_gatherInputs example_rename_env None example_host
     = (Threw \<lparr>message = ''You must first open a note to rename a header.'', status = None\<rparr>,
        example_host)"
proof -
  let ?E1 = "example_env\<lparr>enableSelfContainedVaults := True\<rparr>"
  let ?H1 = "example_host\<lparr>quickPick := Some Local, inputBox := [Some ''notes'']\<rparr>"
  let ?H2 = "example_host\<lparr>codeWorkspace := None\<rparr>"
  let ?o = "example_remote_opts\<lparr>opts_type := Local\<rparr>"
  have a1: "nextInput ?H1 = Some ''notes'' \<and> ''notes'' \<noteq> [] \<and> vaultNameTaken ?E1 ''notes''"
    by (simp add: nextInput_def vaultNameTaken_def example_env_def example_host_def)
  have a2: "quickPick ?H1 = Some Local \<and> enableSelfContainedVaults ?E1"
    by (simp add: example_env_def)
  have b1: "wsType example_env \<noteq> NATIVE \<and> codeWorkspace ?H2 = None"
    by (simp add: example_env_def)
  have b2: "opts_type ?o \<noteq> Remote" by simp
  have c1: "getActiveNote example_rename_env (activeTextEditor example_host) = None"
    by (simp add: example_rename_env_def example_host_def)
  note t1 = errors_propagate[where h = ?H1 and n = "''notes''" and E = ?E1 and sourceType = Local,
      THEN conjunct1, rule_format, OF a1, THEN conjunct2, rule_format, OF a2]
  note t2 = errors_propagate[where h = ?H2 and E = example_env and opts = ?o,
      THEN conjunct2, THEN conjunct1, rule_format, OF b1, THEN conjunct2, rule_format, OF b2]
  note t3 = errors_propagate[where h = example_host and R = example_rename_env and ropts = None,
      THEN conjunct2, THEN conjunct2, THEN conjunct2, THEN conjunct2, THEN conjunct1,
      rule_format, OF c1]
  note t4 = errors_propagate[where h = ?H1 and E = ?E1,
      THEN conjunct2, THEN conjunct2, THEN conjunct1, rule_format, OF t1[THEN conjunct1]]
  note t5 = errors_propagate[where h = ?H2 and E = example_env and opts = ?o,
      THEN conjunct2, THEN conjunct2, THEN conjunct2, THEN conjunct1, rule_format,
      OF t2[THEN conjunct1]]
  from t1 t2 t3 t4 t5 show ?thesis
    by (simp add: vaultNameTakenError_def noCodeWorkspaceError_def openNoteError_def
          registerLocal_def localVault_def example_env_def example_remote_opts_def)
qed



subsection \<open>Dismissed and empty prompts\<close>


lemma parseOldHeader_frame:
  "parseOldHeader R h = (r, h1) \<Longrightarrow>
     activeTextEditor h1 = activeTextEditor h \<and> disk h1 = disk h \<and>
     codeWorkspace h1 = codeWorkspace h \<and> inputBox h1 = inputBox h"
  by (auto simp: parseOldHeader_def lineAt_def Let_def split: option.splits if_splits list.splits)

lemma truthy_isInputEmpty: "truthy v = (\<not> isInputEmpty v)"
  by (simp add: truthy_def isInputEmpty_def split: option.splits)

lemma RenameHeader_gatherInputs_cancel:
  assumes "getActiveNote R (activeTextEditor h) = Some n" "newHeaderOf ropts = None"
    "(case oldHeaderOf ropts of None \<Rightarrow> parseOldHeader R h | Some given \<Rightarrow> (Returned given, h))
       = (Returned oh, h1)"
    "isInputEmpty (nextInput h1)"
  shows "RenameHeader_gatherInputs R ropts h = (Returned None, newHeaderPrompt oh h1)"
  using assms
  by (simp add: RenameHeader_gatherInputs_def Let_def showInputBox_eq truthy_isInputEmpty
        newHeaderPrompt_def)

lemma resolve_frame:
  assumes "(case oldHeaderOf ropts of None \<Rightarrow> parseOldHeader R h | Some given \<Rightarrow> (Returned given, h))
       = (r, h1)"
  shows "activeTextEditor h1 = activeTextEditor h \<and> disk h1 = disk h \<and>
     codeWorkspace h1 = codeWorkspace h"
  using assms parseOldHeader_frame[of R h r h1] by (cases "oldHeaderOf ropts") auto

lemma newHeaderPrompt_frame:
  "activeTextEditor (newHeaderPrompt oh h) = activeTextEditor h \<and>
   disk (newHeaderPrompt oh h) = disk h \<and> codeWorkspace (newHeaderPrompt oh h) = codeWorkspace h \<and>
   newEvents h (newHeaderPrompt oh h) =
     [ShowInputBox ''Enter the new header text'' (Some (header_text oh))]"
  by (simp add: newHeaderPrompt_def showInputBox_host newEvents_def)

lemma gatherVaultSelfContained_cancel_name:
  "isInputEmpty (nextInput h) \<Longrightarrow> fst (gatherVaultSelfContained E t h) = Returned None"
  by (auto simp: gatherVaultSelfContained_def Let_def showInputBox_eq split: option.splits)

lemma gatherVaultSelfContained_cancel_url:
  "nextInput h = Some n \<Longrightarrow> n \<noteq> [] \<Longrightarrow> \<not> vaultNameTaken E n \<Longrightarrow> t \<noteq> Local \<Longrightarrow>
   isInputEmpty (nextInput (h\<lparr>inputBox := tl (inputBox h)\<rparr>)) \<Longrightarrow>
   fst (gatherVaultSelfContained E t h) = Returned None"
  by (auto simp: gatherVaultSelfContained_def Let_def showInputBox_eq isInputEmpty_def
        nextInput_def split: option.splits list.splits)

lemma gatherVaultStandard_cancel_local:
  "t \<noteq> Remote \<Longrightarrow> isInputEmpty (nextInput h) \<Longrightarrow> fst (gatherVaultStandard E t h) = Returned None"
  by (auto simp: gatherVaultStandard_def Let_def showInputBox_eq split: option.splits)

lemma gatherVaultStandard_cancel_remote:
  "accepts h = (val, selected) # rest \<Longrightarrow> \<not> (label selected = ''custom'' \<and> val = []) \<Longrightarrow>
   isInputEmpty (nextInput h) \<Longrightarrow> fst (gatherVaultStandard E Remote h) = Returned None"
  by (auto simp: gatherVaultStandard_def Let_def showInputBox_eq isInputEmpty_def
        split: option.splits)

text \<open>
  C5, amended. An empty or dismissed answer makes the gathering function return
  \<^verbatim>\<open>undefined\<close> at these prompts: the new header text of the rename-header command; the
  quick pick of the source type (dismissed); the name and the remote URL of a
  self-contained vault; the path of a standard vault, local or remote. Nothing is thrown
  there, and the gathering functions of the vault-add command only make prompts: the
  workspace file, the editor and the saved document stay as they were (for the
  rename-header command, which has parsed the line before it asks). The prompt for the
  name of a standard vault is not among them: it is optional.
\<close>

theorem prompts_abandon:
  "(getActiveNote R (activeTextEditor h) = Some n \<and> newHeaderOf ropts = None \<and>
    (case oldHeaderOf ropts of None \<Rightarrow> parseOldHeader R h | Some given \<Rightarrow> (Returned given, h))
       = (Returned oh, h1) \<and> isInputEmpty (nextInput h1) \<longrightarrow>
      RenameHeader_gatherInputs R ropts h = (Returned None, newHeaderPrompt oh h1) \<and>
      activeTextEditor (newHeaderPrompt oh h1) = activeTextEditor h \<and>
      disk (newHeaderPrompt oh h1) = disk h \<and>
      codeWorkspace (newHeaderPrompt oh h1) = codeWorkspace h \<and>
      newEvents h1 (newHeaderPrompt oh h1)
        = [ShowInputBox ''Enter the new header text'' (Some (header_text oh))]) \<and>
   (quickPick h = None \<longrightarrow>
      VaultAdd_gatherInputs E h = (Returned None, emit (ShowQuickPick [''local'', ''remote'']) h)) \<and>
   (isInputEmpty (nextInput h) \<longrightarrow> fst (gatherVaultSelfContained E t h) = Returned None) \<and>
   (nextInput h = Some name \<and> name \<noteq> [] \<and> \<not> vaultNameTaken E name \<and> t \<noteq> Local \<and>
    isInputEmpty (nextInput (h\<lparr>inputBox := tl (inputBox h)\<rparr>)) \<longrightarrow>
      fst (gatherVaultSelfContained E t h) = Returned None) \<and>
   (t \<noteq> Remote \<and> isInputEmpty (nextInput h) \<longrightarrow> fst (gatherVaultStandard E t h) = Returned None) \<and>
   (accepts h = (val, selected) # rest \<and> \<not> (label selected = ''custom'' \<and> val = []) \<and>
    isInputEmpty (nextInput h) \<longrightarrow> fst (gatherVaultStandard E Remote h) = Returned None) \<and>
   promptsOnly h (snd (gatherVaultSelfContained E t h)) \<and>
   promptsOnly h (snd (gatherVaultStandard E t h)) \<and>
   promptsOnly h (snd (VaultAdd_gatherInputs E h))"
proof (intro conjI impI)
  assume a: "getActiveNote R (activeTextEditor h) = Some n \<and> newHeaderOf ropts = None \<and>
    (case oldHeaderOf ropts of None \<Rightarrow> parseOldHeader R h | Some given \<Rightarrow> (Returned given, h))
       = (Returned oh, h1) \<and> isInputEmpty (nextInput h1)"
  then show "RenameHeader_gatherInputs R ropts h = (Returned None, newHeaderPrompt oh h1)"
    by (simp add: RenameHeader_gatherInputs_cancel)
  from a have f: "activeTextEditor h1 = activeTextEditor h \<and> disk h1 = disk h \<and>
     codeWorkspace h1 = codeWorkspace h"
    using resolve_frame[where ropts = ropts and R = R and h = h and r = "Returned oh" and ?h1.0 = h1] by simp
  from f show "activeTextEditor (newHeaderPrompt oh h1) = activeTextEditor h"
    by (simp add: newHeaderPrompt_frame)
  from f show "disk (newHeaderPrompt oh h1) = disk h" by (simp add: newHeaderPrompt_frame)
  from f show "codeWorkspace (newHeaderPrompt oh h1) = codeWorkspace h"
    by (simp add: newHeaderPrompt_frame)
  show "newEvents h1 (newHeaderPrompt oh h1)
        = [ShowInputBox ''Enter the new header text'' (Some (header_text oh))]"
    by (simp add: newHeaderPrompt_frame)
next
  assume "quickPick h = None"
  then show "VaultAdd_gatherInputs E h = (Returned None, emit (ShowQuickPick [''local'', ''remote'']) h)"
    by (simp add: VaultAdd_gatherInputs_def Let_def)
next
  assume "isInputEmpty (nextInput h)"
  then show "fst (gatherVaultSelfContained E t h) = Returned None"
    by (rule gatherVaultSelfContained_cancel_name)
next
  assume "nextInput h = Some name \<and> name \<noteq> [] \<and> \<not> vaultNameTaken E name \<and> t \<noteq> Local \<and>
    isInputEmpty (nextInput (h\<lparr>inputBox := tl (inputBox h)\<rparr>))"
  then show "fst (gatherVaultSelfContained E t h) = Returned None"
    by (simp add: gatherVaultSelfContained_cancel_url)
next
  assume "t \<noteq> Remote \<and> isInputEmpty (nextInput h)"
  then show "fst (gatherVaultStandard E t h) = Returned None"
    by (simp add: gatherVaultStandard_cancel_local)
next
  assume "accepts h = (val, selected) # rest \<and> \<not> (label selected = ''custom'' \<and> val = []) \<and>
    isInputEmpty (nextInput h)"
  then show "fst (gatherVaultStandard E Remote h) = Returned None"
    using gatherVaultStandard_cancel_remote[of h val selected rest E] by simp
next
  show "promptsOnly h (snd (gatherVaultSelfContained E t h))"
    by (simp add: gatherVaultSelfContained_promptsOnly)
  show "promptsOnly h (snd (gatherVaultStandard E t h))"
    by (simp add: gatherVaultStandard_promptsOnly)
  show "promptsOnly h (snd (VaultAdd_gatherInputs E h))"
    by (rule VaultAdd_gatherInputs_promptsOnly)
qed

lemma gatherVaultStandard_dismissed:
  "accepts h = [] \<Longrightarrow> fst (gatherVaultStandard E Remote h) = Pending"
  by (simp add: gatherVaultStandard_def)

text \<open>
  The prompt for the name in \<^verbatim>\<open>gatherVaultStandard\<close> is optional: here the path is given and
  the name prompt is dismissed, and the options are returned, with no name.
\<close>

theorem optional_name_prompt_counterexample:
  "nextInput (snd (showInputBox pathPrompt None (example_host\<lparr>inputBox := [Some ''vault2'', None]\<rparr>)))
     = None \<and>
   fst (gatherVaultStandard example_env Local (example_host\<lparr>inputBox := [Some ''vault2'', None]\<rparr>))
     = Returned (Some \<lparr>opts_type = Local, opts_path = ''vault2'', opts_pathRemote = None,
                       opts_name = None, opts_isSelfContained = None\<rparr>) \<and>
   fst (gatherVaultStandard example_env Local (example_host\<lparr>inputBox := [Some ''vault2'', None]\<rparr>))
     \<noteq> Returned None \<and>
   newEvents (example_host\<lparr>inputBox := [Some ''vault2'', None]\<rparr>)
     (snd (gatherVaultStandard example_env Local (example_host\<lparr>inputBox := [Some ''vault2'', None]\<rparr>)))
     = [ShowInputBox pathPrompt None, ShowInputBox namePrompt None]"
  by (simp add: gatherVaultStandard_def showInputBox_def nextInput_def isInputEmpty_def
        example_host_def newEvents_def emit_def Let_def)


theorem prompts_abandon_witness:
  "fst (RenameHeader_gatherInputs example_rename_env None
          (example_host\<lparr>activeTextEditor := Some example_editor, inputBox := [None]\<rparr>))
     = Returned None \<and>
   fst (VaultAdd_gatherInputs example_env example_host) = Returned None \<and>
   fst (gatherVaultSelfContained example_env Local (example_host\<lparr>inputBox := [Some []]\<rparr>))
     = Returned None \<and>
   fst (gatherVaultSelfContained example_env Remote (example_host\<lparr>inputBox := [Some ''v3'', None]\<rparr>))
     = Returned None \<and>
   fst (gatherVaultStandard example_env Local example_host) = Returned None \<and>
   fst (gatherVaultStandard example_env Remote
          (example_host\<lparr>accepts := [(''git@example.com:a/b.git'',
              \<lparr>label = ''custom'', description = ''custom endpoint'', alwaysShow = True, src = []\<rparr>)]\<rparr>))
     = Returned None"
proof -
  let ?Hr = "example_host\<lparr>activeTextEditor := Some example_editor, inputBox := [None]\<rparr>"
  let ?oh = "\<lparr>header_text = ''Old header'',
              header_range = \<lparr>range_start = \<lparr>line = 1, character = 3\<rparr>,
                              range_end = \<lparr>line = 1, character = 13\<rparr>\<rparr>\<rparr>"
  let ?h1 = "emit (Parse ''## Old header'') ?Hr"
  have a: "getActiveNote example_rename_env (activeTextEditor ?Hr) = Some example_note \<and>
      newHeaderOf None = None \<and>
      (case oldHeaderOf None of None \<Rightarrow> parseOldHeader example_rename_env ?Hr
         | Some given \<Rightarrow> (Returned given, ?Hr)) = (Returned ?oh, ?h1) \<and>
      isInputEmpty (nextInput ?h1)"
    by (simp add: example_rename_env_def example_editor_def example_host_def newHeaderOf_def
          oldHeaderOf_def parseOldHeader_def lineAt_def isInputEmpty_def nextInput_def emit_def)
  note t1 = prompts_abandon[where R = example_rename_env and h = ?Hr and ropts = None
      and n = example_note and oh = ?oh and ?h1.0 = ?h1, THEN conjunct1, rule_format, OF a]
  have b: "quickPick example_host = None" by (simp add: example_host_def)
  note t2 = prompts_abandon[where h = example_host and E = example_env,
      THEN conjunct2, THEN conjunct1, rule_format, OF b]
  let ?Hc = "example_host\<lparr>inputBox := [Some []]\<rparr>"
  have c: "isInputEmpty (nextInput ?Hc)" by (simp add: isInputEmpty_def nextInput_def)
  note t3 = prompts_abandon[where h = ?Hc and E = example_env and t = Local,
      THEN conjunct2, THEN conjunct2, THEN conjunct1, rule_format, OF c]
  let ?Hd = "example_host\<lparr>inputBox := [Some ''v3'', None]\<rparr>"
  have d: "nextInput ?Hd = Some ''v3'' \<and> ''v3'' \<noteq> [] \<and> \<not> vaultNameTaken example_env ''v3'' \<and>
      Remote \<noteq> Local \<and> isInputEmpty (nextInput (?Hd\<lparr>inputBox := tl (inputBox ?Hd)\<rparr>))"
    by (simp add: isInputEmpty_def nextInput_def vaultNameTaken_def example_env_def)
  note t4 = prompts_abandon[where h = ?Hd and E = example_env and t = Remote and name = "''v3''",
      THEN conjunct2, THEN conjunct2, THEN conjunct2, THEN conjunct1, rule_format, OF d]
  have e: "Local \<noteq> Remote \<and> isInputEmpty (nextInput example_host)"
    by (simp add: isInputEmpty_def nextInput_def example_host_def)
  note t5 = prompts_abandon[where h = example_host and E = example_env and t = Local,
      THEN conjunct2, THEN conjunct2, THEN conjunct2, THEN conjunct2, THEN conjunct1,
      rule_format, OF e]
  let ?custom = "\<lparr>label = ''custom'', description = ''custom endpoint'', alwaysShow = True, src = []\<rparr>"
  let ?Hf = "example_host\<lparr>accepts := [(''git@example.com:a/b.git'', ?custom)]\<rparr>"
  have f: "accepts ?Hf = (''git@example.com:a/b.git'', ?custom) # [] \<and>
      \<not> (label ?custom = ''custom'' \<and> ''git@example.com:a/b.git'' = []) \<and>
      isInputEmpty (nextInput ?Hf)"
    by (simp add: isInputEmpty_def nextInput_def example_host_def)
  note t6 = prompts_abandon[where h = ?Hf and E = example_env
      and val = "''git@example.com:a/b.git''" and selected = ?custom and rest = "[]",
      THEN conjunct2, THEN conjunct2, THEN conjunct2, THEN conjunct2, THEN conjunct2,
      THEN conjunct1, rule_format, OF f]
  from t1 t2 t3 t4 t5 t6 show ?thesis by simp
qed



subsection \<open>The steps of the rename-header command\<close>


lemma parseOldHeader_Returned:
  assumes "parseOldHeader R h = (Returned oh, h1)"
  shows "\<exists>lineText node nodes. h1 = emit (Parse lineText) h \<and>
           parseHeadings R lineText = node # nodes \<and> header_text oh = headerText R node"
  using assms
  by (auto simp: parseOldHeader_def lineAt_def Let_def split: option.splits if_splits list.splits)

lemma RenameHeader_gatherInputs_Returned:
  assumes "RenameHeader_gatherInputs R ropts h = (Returned (Some req), hg)"
  shows "\<exists>parsed prompted.
      newEvents h hg = parsed @ prompted \<and> activeTextEditor hg = activeTextEditor h \<and>
      (case oldHeaderOf ropts of
         Some given \<Rightarrow> parsed = [] \<and> req_oldHeader req = given
       | None \<Rightarrow> (\<exists>lineText node nodes. parsed = [Parse lineText] \<and>
                    parseHeadings R lineText = node # nodes \<and>
                    header_text (req_oldHeader req) = headerText R node)) \<and>
      (case newHeaderOf ropts of
         Some given \<Rightarrow> prompted = [] \<and> req_newHeader req = given
       | None \<Rightarrow> prompted = [ShowInputBox ''Enter the new header text''
                                 (Some (header_text (req_oldHeader req)))] \<and>
                 req_newHeader req \<noteq> [])"
proof -
  from assms obtain n where n: "getActiveNote R (activeTextEditor h) = Some n"
    by (cases "getActiveNote R (activeTextEditor h)")
       (auto simp: RenameHeader_gatherInputs_def Let_def)
  let ?res = "(case oldHeaderOf ropts of None \<Rightarrow> parseOldHeader R h
               | Some given \<Rightarrow> (Returned given, h))"
  obtain r h1 where res: "?res = (r, h1)" by (cases ?res)
  from assms n res obtain oh where r: "r = Returned oh"
    by (cases r) (auto simp: RenameHeader_gatherInputs_def Let_def)
  have p: "\<exists>parsed. trace h1 = trace h @ parsed \<and> activeTextEditor h1 = activeTextEditor h \<and>
      (case oldHeaderOf ropts of
         Some given \<Rightarrow> parsed = [] \<and> oh = given
       | None \<Rightarrow> (\<exists>lineText node nodes. parsed = [Parse lineText] \<and>
                    parseHeadings R lineText = node # nodes \<and>
                    header_text oh = headerText R node))"
  proof (cases "oldHeaderOf ropts")
    case None
    with res r have "parseOldHeader R h = (Returned oh, h1)" by simp
    from parseOldHeader_Returned[OF this] None show ?thesis by auto
  next
    case (Some given)
    with res r show ?thesis by auto
  qed
  then obtain parsed where parsed: "trace h1 = trace h @ parsed"
      "activeTextEditor h1 = activeTextEditor h"
      "(case oldHeaderOf ropts of
         Some given \<Rightarrow> parsed = [] \<and> oh = given
       | None \<Rightarrow> (\<exists>lineText node nodes. parsed = [Parse lineText] \<and>
                    parseHeadings R lineText = node # nodes \<and>
                    header_text oh = headerText R node))" by blast
  have q: "req_oldHeader req = oh \<and> activeTextEditor hg = activeTextEditor h1 \<and>
      (\<exists>prompted. trace hg = trace h1 @ prompted \<and>
      (case newHeaderOf ropts of
         Some given \<Rightarrow> prompted = [] \<and> req_newHeader req = given
       | None \<Rightarrow> prompted = [ShowInputBox ''Enter the new header text'' (Some (header_text oh))] \<and>
                 req_newHeader req \<noteq> []))"
    using assms n res r
    by (cases "newHeaderOf ropts")
       (auto simp: RenameHeader_gatherInputs_def Let_def showInputBox_eq truthy_def
             split: option.splits if_splits)
  then obtain prompted where prompted: "trace hg = trace h1 @ prompted"
      "(case newHeaderOf ropts of
         Some given \<Rightarrow> prompted = [] \<and> req_newHeader req = given
       | None \<Rightarrow> prompted = [ShowInputBox ''Enter the new header text'' (Some (header_text oh))] \<and>
                 req_newHeader req \<noteq> [])" by blast
  from parsed(1) prompted(1) have "newEvents h hg = parsed @ prompted"
    by (simp add: newEvents_def)
  with parsed(2,3) prompted(2) q show ?thesis by auto
qed

lemma RenameHeader_execute_steps:
  assumes "activeTextEditor h = Some editor" "getNoteFromDocument R (document editor) = Some docNote"
  shows "fst (RenameHeader_execute R (Some \<lparr>oldHeader = Some oh, newHeader = Some nh,
                 opt_source = s, opt_note = n\<rparr>) h)
           = Returned (Some (renameNote R (oldLocOf R docNote oh)
                              (newLocOf R docNote oh (newAnchorHeaderOf R nh)))) \<and>
         trace (snd (RenameHeader_execute R (Some \<lparr>oldHeader = Some oh, newHeader = Some nh,
                 opt_source = s, opt_note = n\<rparr>) h))
           = trace h @ [LoggerInfo ''enter'', EditReplace (header_range oh) nh, Parse (''## '' @ nh),
                DocumentSave, DelayedUpdateDecorations,
                RenameNote (oldLocOf R docNote oh) (newLocOf R docNote oh (newAnchorHeaderOf R nh))] \<and>
         activeTextEditor (snd (RenameHeader_execute R (Some \<lparr>oldHeader = Some oh, newHeader = Some nh,
                 opt_source = s, opt_note = n\<rparr>) h))
           = Some (editor\<lparr>document := replaceRange R (document editor) (header_range oh) nh\<rparr>) \<and>
         disk (snd (RenameHeader_execute R (Some \<lparr>oldHeader = Some oh, newHeader = Some nh,
                 opt_source = s, opt_note = n\<rparr>) h))
           = doc_lines (replaceRange R (document editor) (header_range oh) nh)"
  using assms
  by (simp add: RenameHeader_execute_def Let_def oldHeaderOf_def newHeaderOf_def)

text \<open>
  C3, amended. A run of the rename-header command that gathers its inputs, with an
  active editor on a note, makes these calls in this order: the parse of the line of the
  selection, from whose first heading the old header text is taken (no parse when the old
  header is supplied); the input box for the new text (none when the new header is
  supplied); the log entry of \<^verbatim>\<open>execute\<close>; the edit that replaces the range of the old
  header by the new text; the parse of \<^verbatim>\<open>## \<close> followed by the new text, which gives the
  normalized header; the save of the document; the refresh of the decorations; and
  \<^verbatim>\<open>engine.renameNote\<close> with \<open>oldLoc\<close> and \<open>newLoc\<close>, whose anchors are the slug of the old
  header text and the slug of the normalized new text, made by one slugger in that order.
  The saved document is the edited one.
\<close>

theorem RenameHeader_run_steps:
  assumes "RenameHeader_gatherInputs R ropts h = (Returned (Some req), hg)"
    and "activeTextEditor h = Some editor"
    and "getNoteFromDocument R (document editor) = Some docNote"
  shows "\<exists>parsed prompted oldLoc newLoc.
      fst (RenameHeader_run R ropts h) = Returned (Some (renameNote R oldLoc newLoc)) \<and>
      newEvents h (snd (RenameHeader_run R ropts h)) =
        parsed @ prompted @
        [LoggerInfo ''enter'',
         EditReplace (header_range (req_oldHeader req)) (req_newHeader req),
         Parse (''## '' @ req_newHeader req),
         DocumentSave,
         DelayedUpdateDecorations,
         RenameNote oldLoc newLoc] \<and>
      (case oldHeaderOf ropts of
         Some given \<Rightarrow> parsed = [] \<and> req_oldHeader req = given
       | None \<Rightarrow> (\<exists>lineText node nodes. parsed = [Parse lineText] \<and>
                    parseHeadings R lineText = node # nodes \<and>
                    header_text (req_oldHeader req) = headerText R node)) \<and>
      (case newHeaderOf ropts of
         Some given \<Rightarrow> prompted = [] \<and> req_newHeader req = given
       | None \<Rightarrow> prompted = [ShowInputBox ''Enter the new header text''
                                 (Some (header_text (req_oldHeader req)))] \<and>
                 req_newHeader req \<noteq> []) \<and>
      anchorHeader oldLoc = slug R [] (header_text (req_oldHeader req)) \<and>
      anchorHeader newLoc = slug R [header_text (req_oldHeader req)]
                              (newAnchorHeaderOf R (req_newHeader req)) \<and>
      disk (snd (RenameHeader_run R ropts h))
        = doc_lines (replaceRange R (document editor) (header_range (req_oldHeader req))
                       (req_newHeader req))"
proof -
  from RenameHeader_gatherInputs_Returned[OF assms(1)] obtain parsed prompted where
    g: "newEvents h hg = parsed @ prompted" "activeTextEditor hg = activeTextEditor h"
       "(case oldHeaderOf ropts of
         Some given \<Rightarrow> parsed = [] \<and> req_oldHeader req = given
       | None \<Rightarrow> (\<exists>lineText node nodes. parsed = [Parse lineText] \<and>
                    parseHeadings R lineText = node # nodes \<and>
                    header_text (req_oldHeader req) = headerText R node))"
       "(case newHeaderOf ropts of
         Some given \<Rightarrow> prompted = [] \<and> req_newHeader req = given
       | None \<Rightarrow> prompted = [ShowInputBox ''Enter the new header text''
                                 (Some (header_text (req_oldHeader req)))] \<and>
                 req_newHeader req \<noteq> [])"
    by blast
  have ext: "\<exists>evs. trace hg = trace h @ evs"
    using assms(1)
    by (auto simp: RenameHeader_gatherInputs_def Let_def showInputBox_eq parseOldHeader_def
          lineAt_def split: option.splits if_splits list.splits)
  with g(1) have tg: "trace hg = trace h @ parsed @ prompted"
    by (auto simp: newEvents_def)
  let ?o = "Some \<lparr>oldHeader = Some (req_oldHeader req), newHeader = Some (req_newHeader req),
                    opt_source = Some (req_source req), opt_note = Some (req_note req)\<rparr>"
  let ?oldLoc = "oldLocOf R docNote (req_oldHeader req)"
  let ?newLoc = "newLocOf R docNote (req_oldHeader req) (newAnchorHeaderOf R (req_newHeader req))"
  have run: "RenameHeader_run R ropts h = RenameHeader_execute R ?o hg"
    using assms(1) by (simp add: RenameHeader_run_def)
  from g(2) assms(2) have ed: "activeTextEditor hg = Some editor" by simp
  note x = RenameHeader_execute_steps[OF ed assms(3), of "req_oldHeader req" "req_newHeader req"
      "Some (req_source req)" "Some (req_note req)"]
  from x run have r1: "fst (RenameHeader_run R ropts h) = Returned (Some (renameNote R ?oldLoc ?newLoc))"
    by simp
  from x run tg have r2: "newEvents h (snd (RenameHeader_run R ropts h)) =
        parsed @ prompted @
        [LoggerInfo ''enter'',
         EditReplace (header_range (req_oldHeader req)) (req_newHeader req),
         Parse (''## '' @ req_newHeader req),
         DocumentSave,
         DelayedUpdateDecorations,
         RenameNote ?oldLoc ?newLoc]"
    by (simp add: newEvents_def)
  from x run have r3: "disk (snd (RenameHeader_run R ropts h))
        = doc_lines (replaceRange R (document editor) (header_range (req_oldHeader req))
                       (req_newHeader req))" by simp
  have r4: "anchorHeader ?oldLoc = slug R [] (header_text (req_oldHeader req))"
    "anchorHeader ?newLoc = slug R [header_text (req_oldHeader req)]
                              (newAnchorHeaderOf R (req_newHeader req))"
    by (simp_all add: oldLocOf_def newLocOf_def)
  from r1 r2 r3 r4 g(3,4) show ?thesis by blast
qed


lemmas rename_eval = RenameHeader_run_def RenameHeader_gatherInputs_def RenameHeader_execute_def
  parseOldHeader_def lineAt_def showInputBox_def truthy_def oldHeaderOf_def newHeaderOf_def
  sourceOf_def newAnchorHeaderOf_def oldLocOf_def newLocOf_def dashes_def
  example_rename_env_def example_editor_def example_note_def example_host_def Let_def

theorem RenameHeader_run_steps_witness:
  "fst (RenameHeader_run example_rename_env None
          (example_host\<lparr>activeTextEditor := Some example_editor, inputBox := [Some ''New header'']\<rparr>))
     = Returned (Some [(''foo'', 1)]) \<and>
   (\<exists>oldLoc newLoc.
      newEvents (example_host\<lparr>activeTextEditor := Some example_editor, inputBox := [Some ''New header'']\<rparr>)
        (snd (RenameHeader_run example_rename_env None
          (example_host\<lparr>activeTextEditor := Some example_editor, inputBox := [Some ''New header'']\<rparr>)))
      = [Parse ''## Old header'',
         ShowInputBox ''Enter the new header text'' (Some ''Old header''),
         LoggerInfo ''enter'',
         EditReplace \<lparr>range_start = \<lparr>line = 1, character = 3\<rparr>,
                      range_end = \<lparr>line = 1, character = 13\<rparr>\<rparr> ''New header'',
         Parse ''## New header'',
         DocumentSave,
         DelayedUpdateDecorations,
         RenameNote oldLoc newLoc] \<and>
      anchorHeader oldLoc = ''Old-header'' \<and> anchorHeader newLoc = ''New-header'') \<and>
   disk (snd (RenameHeader_run example_rename_env None
          (example_host\<lparr>activeTextEditor := Some example_editor, inputBox := [Some ''New header'']\<rparr>)))
     = [''# Title'', ''## New header'']"
proof -
  let ?H = "example_host\<lparr>activeTextEditor := Some example_editor, inputBox := [Some ''New header'']\<rparr>"
  let ?oh = "\<lparr>header_text = ''Old header'',
              header_range = \<lparr>range_start = \<lparr>line = 1, character = 3\<rparr>,
                              range_end = \<lparr>line = 1, character = 13\<rparr>\<rparr>\<rparr>"
  let ?req = "\<lparr>req_oldHeader = ?oh, req_newHeader = ''New header'',
               req_source = ''command palette'', req_note = example_note\<rparr>"
  have g: "RenameHeader_gatherInputs example_rename_env None ?H
      = (Returned (Some ?req), snd (RenameHeader_gatherInputs example_rename_env None ?H))"
    by (simp add: rename_eval prod_eq_iff)
  have e: "activeTextEditor ?H = Some example_editor" by simp
  have d: "getNoteFromDocument example_rename_env (document example_editor) = Some example_note"
    by (simp add: example_rename_env_def)
  from RenameHeader_run_steps[OF g e d] obtain parsed prompted oldLoc newLoc where
    x: "fst (RenameHeader_run example_rename_env None ?H)
          = Returned (Some (renameNote example_rename_env oldLoc newLoc))"
       "newEvents ?H (snd (RenameHeader_run example_rename_env None ?H)) =
        parsed @ prompted @
        [LoggerInfo ''enter'',
         EditReplace (header_range (req_oldHeader ?req)) (req_newHeader ?req),
         Parse (''## '' @ req_newHeader ?req),
         DocumentSave,
         DelayedUpdateDecorations,
         RenameNote oldLoc newLoc]"
       "(case oldHeaderOf None of
         Some given \<Rightarrow> parsed = [] \<and> req_oldHeader ?req = given
       | None \<Rightarrow> (\<exists>lineText node nodes. parsed = [Parse lineText] \<and>
                    parseHeadings example_rename_env lineText = node # nodes \<and>
                    header_text (req_oldHeader ?req) = headerText example_rename_env node))"
       "(case newHeaderOf None of
         Some given \<Rightarrow> prompted = [] \<and> req_newHeader ?req = given
       | None \<Rightarrow> prompted = [ShowInputBox ''Enter the new header text''
                                 (Some (header_text (req_oldHeader ?req)))] \<and>
                 req_newHeader ?req \<noteq> [])"
       "anchorHeader oldLoc = slug example_rename_env [] (header_text (req_oldHeader ?req))"
       "anchorHeader newLoc = slug example_rename_env [header_text (req_oldHeader ?req)]
                              (newAnchorHeaderOf example_rename_env (req_newHeader ?req))"
       "disk (snd (RenameHeader_run example_rename_env None ?H))
        = doc_lines (replaceRange example_rename_env (document example_editor)
                       (header_range (req_oldHeader ?req)) (req_newHeader ?req))"
    by blast
  have t: "trace (snd (RenameHeader_run example_rename_env None ?H)) =
       [Parse ''## Old header'',
         ShowInputBox ''Enter the new header text'' (Some ''Old header''),
         LoggerInfo ''enter'',
         EditReplace \<lparr>range_start = \<lparr>line = 1, character = 3\<rparr>,
                      range_end = \<lparr>line = 1, character = 13\<rparr>\<rparr> ''New header'',
         Parse ''## New header'',
         DocumentSave,
         DelayedUpdateDecorations,
         RenameNote (oldLocOf example_rename_env example_note ?oh)
           (newLocOf example_rename_env example_note ?oh ''New header'')]"
    by (simp add: rename_eval emit_def)
  have ne: "newEvents ?H (snd (RenameHeader_run example_rename_env None ?H))
      = trace (snd (RenameHeader_run example_rename_env None ?H))"
    by (simp add: newEvents_def example_host_def)
  from x(2) t ne have locs: "oldLoc = oldLocOf example_rename_env example_note ?oh"
      "newLoc = newLocOf example_rename_env example_note ?oh ''New header''"
    by (simp_all add: append_eq_Cons_conv)
  have r: "fst (RenameHeader_run example_rename_env None ?H) = Returned (Some [(''foo'', 1)])"
    using x(1) locs by (simp add: rename_eval)
  have a: "anchorHeader oldLoc = ''Old-header''" "anchorHeader newLoc = ''New-header''"
    using x(5,6) by (simp_all add: rename_eval)
  have dk: "disk (snd (RenameHeader_run example_rename_env None ?H)) = [''# Title'', ''## New header'']"
    using x(7) by (simp add: rename_eval)
  from t ne locs have "newEvents ?H (snd (RenameHeader_run example_rename_env None ?H))
      = [Parse ''## Old header'',
         ShowInputBox ''Enter the new header text'' (Some ''Old header''),
         LoggerInfo ''enter'',
         EditReplace \<lparr>range_start = \<lparr>line = 1, character = 3\<rparr>,
                      range_end = \<lparr>line = 1, character = 13\<rparr>\<rparr> ''New header'',
         Parse ''## New header'',
         DocumentSave,
         DelayedUpdateDecorations,
         RenameNote oldLoc newLoc]" by simp
  with r a dk show ?thesis by blast
qed

text \<open>
  The new header is parsed again before the document is saved: in this run no save
  comes before the second parse, and the decorations are refreshed after the save.
\<close>

theorem rename_save_after_reparse_counterexample:
  "DocumentSave \<in> set (trace (snd (RenameHeader_run example_rename_env None
      (example_host\<lparr>activeTextEditor := Some example_editor, inputBox := [Some ''New header'']\<rparr>)))) \<and>
   DocumentSave \<notin> set (takeWhile (\<lambda>e. e \<noteq> Parse ''## New header'')
     (trace (snd (RenameHeader_run example_rename_env None
      (example_host\<lparr>activeTextEditor := Some example_editor, inputBox := [Some ''New header'']\<rparr>))))) \<and>
   Parse ''## New header'' \<in> set (takeWhile (\<lambda>e. e \<noteq> DocumentSave)
     (trace (snd (RenameHeader_run example_rename_env None
      (example_host\<lparr>activeTextEditor := Some example_editor, inputBox := [Some ''New header'']\<rparr>))))) \<and>
   DelayedUpdateDecorations \<in> set (trace (snd (RenameHeader_run example_rename_env None
      (example_host\<lparr>activeTextEditor := Some example_editor, inputBox := [Some ''New header'']\<rparr>))))"
  by (simp add: rename_eval emit_def)



section \<open>Properties of the engine\<close>


lemma loadSchemas_other:
  "k \<notin> set (map (\<lambda>m. schema_id (root m)) ms) \<Longrightarrow> loadSchemas ms d k = d k"
  by (induction ms arbitrary: d) (auto simp: updateSchema_def)

lemma loadSchemas_member:
  "m \<in> set ms \<Longrightarrow> distinct (map (\<lambda>m. schema_id (root m)) ms) \<Longrightarrow>
     loadSchemas ms d (schema_id (root m)) = Some m"
proof (induction ms arbitrary: d)
  case Nil
  then show ?case by simp
next
  case (Cons a ms)
  show ?case
  proof (cases "m = a")
    case True
    with Cons.prems(2) show ?thesis
      by (simp add: loadSchemas_other updateSchema_def)
  next
    case False
    with Cons show ?thesis by simp
  qed
qed

lemma init_schemas: "engine_schemas (init e) = loadSchemas (store_schemas e) Map.empty"
  by (simp add: init_def Let_def)

lemma init_notes_Some:
  assumes "engine_notes (init e) f = Some n'"
  shows "fname n' = f \<and> note_schema n' = schemaOf f (engine_schemas (init e))"
proof -
  let ?S = "loadSchemas (store_schemas e) Map.empty"
  from assms have "map_of (map (\<lambda>n. (fname n, n\<lparr>note_schema := schemaOf (fname n) ?S\<rparr>))
                            (store_notes e)) f = Some n'"
    by (simp add: init_def Let_def)
  then have "(f, n') \<in> set (map (\<lambda>n. (fname n, n\<lparr>note_schema := schemaOf (fname n) ?S\<rparr>))
                            (store_notes e))"
    by (rule map_of_SomeD)
  then show ?thesis by (auto simp: init_schemas)
qed

lemma init_notes_member:
  assumes "n \<in> set (store_notes e)"
  shows "\<exists>n'. engine_notes (init e) (fname n) = Some n'"
proof -
  let ?S = "loadSchemas (store_schemas e) Map.empty"
  let ?xs = "map (\<lambda>n. (fname n, n\<lparr>note_schema := schemaOf (fname n) ?S\<rparr>)) (store_notes e)"
  from assms have "fname n \<in> fname ` set (store_notes e)" by (rule imageI)
  then have "fname n \<in> fst ` set ?xs" by (simp add: image_comp comp_def)
  then have "map_of ?xs (fname n) \<noteq> None" by (simp add: map_of_eq_None_iff)
  then show ?thesis by (auto simp: init_def Let_def)
qed

text \<open>
  C2. After \<^verbatim>\<open>init\<close> a note whose name matches a schema module carries the association
  of that module: the id of the module and the id of the matching schema. A note of the
  vault named \<open>F\<close>, with a module \<open>F\<close> of the vault that is not a namespace, has the
  schema \<^verbatim>\<open>{moduleId: F, schemaId: F}\<close>; a note named \<open>N.<child>\<close>, with a namespace module
  \<open>N\<close>, has the schema \<^verbatim>\<open>{moduleId: N, schemaId: N}\<close>. \<open>F\<close> and \<open>N\<close> are domain names (no
  dot) and the modules of the vault have distinct ids.
\<close>

theorem init_links_schemas:
  "(engine_notes (init e) f = Some linked \<and> matchPath f (engine_schemas (init e)) = Some r \<longrightarrow>
      note_schema linked = Some \<lparr>moduleId = domainName f, schemaId = schema_id (schema r)\<rparr>) \<and>
   (n \<in> set (store_notes e) \<and> fname n = F \<and> m \<in> set (store_schemas e) \<and>
    schema_id (root m) = F \<and> \<not> namespace (root m) \<and> CHR ''.'' \<notin> set F \<and>
    distinct (map (\<lambda>m. schema_id (root m)) (store_schemas e)) \<longrightarrow>
      (\<exists>n'. engine_notes (init e) F = Some n' \<and>
             note_schema n' = Some \<lparr>moduleId = F, schemaId = F\<rparr>)) \<and>
   (n \<in> set (store_notes e) \<and> fname n = N @ CHR ''.'' # child \<and> m \<in> set (store_schemas e) \<and>
    schema_id (root m) = N \<and> namespace (root m) \<and> CHR ''.'' \<notin> set N \<and>
    distinct (map (\<lambda>m. schema_id (root m)) (store_schemas e)) \<longrightarrow>
      (\<exists>n'. engine_notes (init e) (N @ CHR ''.'' # child) = Some n' \<and>
             note_schema n' = Some \<lparr>moduleId = N, schemaId = N\<rparr>))"
proof (intro conjI impI)
  assume "engine_notes (init e) f = Some linked \<and> matchPath f (engine_schemas (init e)) = Some r"
  then show "note_schema linked = Some \<lparr>moduleId = domainName f, schemaId = schema_id (schema r)\<rparr>"
    using init_notes_Some[of e f linked] by (simp add: schemaOf_def)
next
  assume a: "n \<in> set (store_notes e) \<and> fname n = F \<and> m \<in> set (store_schemas e) \<and>
    schema_id (root m) = F \<and> \<not> namespace (root m) \<and> CHR ''.'' \<notin> set F \<and>
    distinct (map (\<lambda>m. schema_id (root m)) (store_schemas e))"
  then have "n \<in> set (store_notes e)" "fname n = F" by simp_all
  with init_notes_member[of n e] obtain n' where n': "engine_notes (init e) F = Some n'"
    by auto
  from a have "m \<in> set (store_schemas e)" "schema_id (root m) = F"
    "distinct (map (\<lambda>m. schema_id (root m)) (store_schemas e))" by simp_all
  with loadSchemas_member[of m "store_schemas e" Map.empty]
  have "engine_schemas (init e) F = Some m" by (simp only: init_schemas)
  with a have "matchPath F (engine_schemas (init e)) = Some \<lparr>schema = root m\<rparr>"
    by (simp add: matchPath_def domainName_dotfree)
  with a have "schemaOf F (engine_schemas (init e)) = Some \<lparr>moduleId = F, schemaId = F\<rparr>"
    by (simp add: schemaOf_def domainName_dotfree)
  with n' init_notes_Some[OF n'] show "\<exists>n'. engine_notes (init e) F = Some n' \<and>
             note_schema n' = Some \<lparr>moduleId = F, schemaId = F\<rparr>" by simp
next
  assume a: "n \<in> set (store_notes e) \<and> fname n = N @ CHR ''.'' # child \<and>
    m \<in> set (store_schemas e) \<and>
    schema_id (root m) = N \<and> namespace (root m) \<and> CHR ''.'' \<notin> set N \<and>
    distinct (map (\<lambda>m. schema_id (root m)) (store_schemas e))"
  let ?p = "N @ CHR ''.'' # child"
  from a have "n \<in> set (store_notes e)" "fname n = ?p" by simp_all
  with init_notes_member[of n e] obtain n' where n': "engine_notes (init e) ?p = Some n'"
    by auto
  from a have "m \<in> set (store_schemas e)" "schema_id (root m) = N"
    "distinct (map (\<lambda>m. schema_id (root m)) (store_schemas e))" by simp_all
  with loadSchemas_member[of m "store_schemas e" Map.empty]
  have "engine_schemas (init e) N = Some m" by (simp only: init_schemas)
  with a have "matchPath ?p (engine_schemas (init e)) = Some \<lparr>schema = root m\<rparr>"
    by (simp add: matchPath_def domainName_child)
  with a have "schemaOf ?p (engine_schemas (init e)) = Some \<lparr>moduleId = N, schemaId = N\<rparr>"
    by (simp add: schemaOf_def domainName_child)
  with n' init_notes_Some[OF n'] show "\<exists>n'. engine_notes (init e) ?p = Some n' \<and>
             note_schema n' = Some \<lparr>moduleId = N, schemaId = N\<rparr>" by simp
qed


theorem init_links_schemas_witness:
  "(\<exists>n'. engine_notes (init example_engine) ''foo'' = Some n' \<and>
         note_schema n' = Some \<lparr>moduleId = ''foo'', schemaId = ''foo''\<rparr>) \<and>
   (\<exists>n'. engine_notes (init example_engine) ''bond.ch1'' = Some n' \<and>
         note_schema n' = Some \<lparr>moduleId = ''bond'', schemaId = ''bond''\<rparr>) \<and>
   engine_notes (init example_engine) ''bond''
     = Some (example_note\<lparr>fname := ''bond'',
               note_schema := Some \<lparr>moduleId = ''bond'', schemaId = ''bond''\<rparr>\<rparr>)"
proof -
  let ?bond = "\<lparr>root = \<lparr>schema_id = ''bond'', namespace = True\<rparr>\<rparr>"
  have a: "example_note \<in> set (store_notes example_engine) \<and> fname example_note = ''foo'' \<and>
      createModuleProps ''foo'' \<in> set (store_schemas example_engine) \<and>
      schema_id (root (createModuleProps ''foo'')) = ''foo'' \<and>
      \<not> namespace (root (createModuleProps ''foo'')) \<and> CHR ''.'' \<notin> set ''foo'' \<and>
      distinct (map (\<lambda>m. schema_id (root m)) (store_schemas example_engine))"
    by (simp add: example_engine_def example_note_def createModuleProps_def)
  have b: "example_note\<lparr>fname := ''bond.ch1''\<rparr> \<in> set (store_notes example_engine) \<and>
      fname (example_note\<lparr>fname := ''bond.ch1''\<rparr>) = ''bond'' @ CHR ''.'' # ''ch1'' \<and>
      ?bond \<in> set (store_schemas example_engine) \<and>
      schema_id (root ?bond) = ''bond'' \<and> namespace (root ?bond) \<and> CHR ''.'' \<notin> set ''bond'' \<and>
      distinct (map (\<lambda>m. schema_id (root m)) (store_schemas example_engine))"
    by (simp add: example_engine_def example_note_def createModuleProps_def)
  note t1 = init_links_schemas[where e = example_engine and n = example_note and F = "''foo''"
      and m = "createModuleProps ''foo''", THEN conjunct2, THEN conjunct1, rule_format, OF a]
  note t2 = init_links_schemas[where e = example_engine and n = "example_note\<lparr>fname := ''bond.ch1''\<rparr>"
      and N = "''bond''" and child = "''ch1''" and m = ?bond,
      THEN conjunct2, THEN conjunct2, rule_format, OF b]
  have s: "engine_schemas (init example_engine) ''bond'' = Some ?bond"
    by (simp add: init_schemas example_engine_def updateSchema_def createModuleProps_def)
  have c: "engine_notes (init example_engine) ''bond''
         = Some (example_note\<lparr>fname := ''bond'',
              note_schema := schemaOf ''bond'' (engine_schemas (init example_engine))\<rparr>) \<and>
      matchPath ''bond'' (engine_schemas (init example_engine)) = Some \<lparr>schema = root ?bond\<rparr>"
    using s by (simp add: init_def Let_def example_engine_def example_note_def matchPath_def
          domainName_def updateSchema_def createModuleProps_def)
  note t0 = init_links_schemas[where e = example_engine and f = "''bond''"
      and linked = "example_note\<lparr>fname := ''bond'',
              note_schema := schemaOf ''bond'' (engine_schemas (init example_engine))\<rparr>"
      and r = "\<lparr>schema = root ?bond\<rparr>", THEN conjunct1, rule_format, OF c]
  from t0 c have "engine_notes (init example_engine) ''bond''
     = Some (example_note\<lparr>fname := ''bond'',
               note_schema := Some \<lparr>moduleId = ''bond'', schemaId = ''bond''\<rparr>\<rparr>)"
    by (simp add: domainName_def)
  with t1 t2 show ?thesis by simp
qed


text \<open>
  C6. With \<^verbatim>\<open>attach\<close> set and an engine running for the workspace, \<^verbatim>\<open>setupEngine\<close> returns
  the port of the running engine and an engine with the notes of the running engine, and
  spawns nothing: the servers that run are the same as before.
\<close>

theorem setupEngine_attach:
  assumes "attach opts" and "running w (se_wsRoot opts) = Some srv"
  shows "\<exists>resp. setupEngine launch opts w = (Inr resp, w) \<and>
           resp_port resp = server_port srv \<and>
           engine_notes (resp_engine resp) = engine_notes (server_engine srv) \<and>
           spawned (snd (setupEngine launch opts w)) = spawned w \<and>
           running (snd (setupEngine launch opts w)) = running w"
  using assms by (simp add: setupEngine_def)

theorem setupEngine_attach_witness:
  "\<exists>resp. setupEngine (\<lambda>opts. \<lparr>server_port = 3006, server_engine = init example_engine\<rparr>)
            \<lparr>se_wsRoot = ''/ws'', noWritePort = True, attach = True, target = ''cli''\<rparr> example_machine
          = (Inr resp, example_machine) \<and>
        resp_port resp = 3005 \<and>
        engine_notes (resp_engine resp) = engine_notes (init example_engine)"
proof -
  let ?o = "\<lparr>se_wsRoot = ''/ws'', noWritePort = True, attach = True, target = ''cli''\<rparr>"
  let ?srv = "\<lparr>server_port = 3005, server_engine = init example_engine\<rparr>"
  have a: "attach ?o" by simp
  have b: "running example_machine (se_wsRoot ?o) = Some ?srv"
    by (simp add: example_machine_def)
  from setupEngine_attach[OF a b, of "\<lambda>opts. \<lparr>server_port = 3006, server_engine = init example_engine\<rparr>"]
  obtain resp where r:
    "setupEngine (\<lambda>opts. \<lparr>server_port = 3006, server_engine = init example_engine\<rparr>) ?o
       example_machine = (Inr resp, example_machine)"
    "resp_port resp = server_port ?srv"
    "engine_notes (resp_engine resp) = engine_notes (server_engine ?srv)"
    by (elim exE conjE)
  show ?thesis
    by (rule exI[of _ resp]) (use r in simp)
qed


end
